theory Spec2Isabelle
  imports Complex_Main
begin

section \<open>Library functions used by the notebook\<close>

text \<open>
  The notebook \<^verbatim>\<open>finance/Put-Call Parity of Vanilla European Options.ipynb\<close> evaluates
  closed formulas with \<^verbatim>\<open>numpy\<close>, \<^verbatim>\<open>scipy.stats\<close> and \<^verbatim>\<open>sympy\<close>. The functions of this and of
  the next section read the code in exact arithmetic: a Python float is a real number, and the
  rounding, overflow and underflow of binary64 are not part of them.
  \<^verbatim>\<open>np.log\<close>, \<^verbatim>\<open>np.sqrt\<close>, \<^verbatim>\<open>np.exp\<close> (and \<^verbatim>\<open>sy.ln\<close>, \<^verbatim>\<open>sy.sqrt\<close>, \<^verbatim>\<open>sy.exp\<close>) are
  \<^term>\<open>ln\<close>, \<^term>\<open>sqrt\<close> and \<^term>\<open>exp\<close> on the reals, which agree with the library on the
  domain \<open>S > 0\<close>, \<open>K > 0\<close>, \<open>T > 0\<close>, \<open>sigma > 0\<close>. What the code does outside that domain
  (special float values, native exceptions) is modelled separately further down. The
  conversion \<^verbatim>\<open>S = float(S)\<close> at the head of each function is the identity on a number.
\<close>

text \<open>
  Modelled from the spec: the standard normal cumulative distribution function, which the
  notebook takes from \<^verbatim>\<open>scipy.stats.norm.cdf\<close> and from \<^verbatim>\<open>sympy.statistics.Normal.cdf\<close>
  (library code outside the repository). Both libraries compute it from the error function,
  \<open>\<Phi>(x) = (1 + erf (x / sqrt 2)) / 2\<close>; the error function is given by its Maclaurin series
  \<open>erf x = 2 / sqrt pi * (\<Sum>k. (-1)^k * x^(2k+1) / (k! * (2k+1)))\<close>.
\<close>

definition erf_coeff :: "nat \<Rightarrow> real" where
  "erf_coeff k = (- 1) ^ k / (fact k * real (2 * k + 1))"

definition erf :: "real \<Rightarrow> real" where
  "erf x = 2 / sqrt pi * (\<Sum>k. erf_coeff k * x ^ (2 * k + 1))"

definition ndtr :: "real \<Rightarrow> real" where
  "ndtr x = (1 + erf (x / sqrt 2)) / 2"

text \<open>\<^verbatim>\<open>scipy.stats.norm.cdf(x, loc, scale)\<close>: the location-scale family over \<^const>\<open>ndtr\<close>.\<close>

definition norm_cdf :: "real \<Rightarrow> real \<Rightarrow> real \<Rightarrow> real" where
  "norm_cdf x loc scale = ndtr ((x - loc) / scale)"

text \<open>\<^verbatim>\<open>sympy.statistics.Normal(mu, sigma).cdf(x)\<close>, which sympy writes with \<open>erf\<close> directly.\<close>

definition Normal_cdf :: "real \<Rightarrow> real \<Rightarrow> real \<Rightarrow> real" where
  "Normal_cdf mu sigma x = (1 + erf ((x - mu) / (sigma * sqrt 2))) / 2"

section \<open>The pricing functions of the notebook\<close>

text \<open>
  \<^verbatim>\<open>
  def put_option_price(S, K, T, r, sigma):
      S = float(S)
      d1 = (np.log(S / K) + (r + 0.5 * sigma ** 2) * T) / (sigma * np.sqrt(T))
      d2 = (np.log(S / K) + (r - 0.5 * sigma ** 2) * T) / (sigma * np.sqrt(T))
      put_price = K * np.exp(-r * T) * si.stats.norm.cdf(-d2, 0.0, 1.0) - S * si.stats.norm.cdf(-d1, 0.0, 1.0)
      return put_price
  \<close>
\<close>

definition put_option_price :: "real \<Rightarrow> real \<Rightarrow> real \<Rightarrow> real \<Rightarrow> real \<Rightarrow> real" where
  "put_option_price S K T r sigma =
     (let d1 = (ln (S / K) + (r + 0.5 * sigma ^ 2) * T) / (sigma * sqrt T);
          d2 = (ln (S / K) + (r - 0.5 * sigma ^ 2) * T) / (sigma * sqrt T);
          put_price = K * exp (- r * T) * norm_cdf (- d2) 0 1 - S * norm_cdf (- d1) 0 1
      in put_price)"

text \<open>
  \<^verbatim>\<open>
  def put_option_price_sym(S, K, T, r, sigma):
      N = systats.Normal(0.0, 1.0)
      S = float(S)
      d1 = (sy.ln(S / K) + (r + 0.5 * sigma ** 2) * T) / (sigma * sy.sqrt(T))
      d2 = (sy.ln(S / K) + (r - 0.5 * sigma ** 2) * T) / (sigma * sy.sqrt(T))
      put_price = K * sy.exp(-r * T) * N.cdf(-d2) - S * N.cdf(-d1)
      return put_price
  \<close>
\<close>

definition put_option_price_sym :: "real \<Rightarrow> real \<Rightarrow> real \<Rightarrow> real \<Rightarrow> real \<Rightarrow> real" where
  "put_option_price_sym S K T r sigma =
     (let N = Normal_cdf 0 1;
          d1 = (ln (S / K) + (r + 0.5 * sigma ^ 2) * T) / (sigma * sqrt T);
          d2 = (ln (S / K) + (r - 0.5 * sigma ^ 2) * T) / (sigma * sqrt T);
          put_price = K * exp (- r * T) * N (- d2) - S * N (- d1)
      in put_price)"

text \<open>
  \<^verbatim>\<open>
  def put_option_price_div(S, K, T, r, sigma, q):
      S = float(S)
      d1 = (np.log(S / K) + (r + 0.5 * sigma ** 2) * T) / (sigma * np.sqrt(T))
      d2 = (np.log(S / K) + (r - 0.5 * sigma ** 2) * T) / (sigma * np.sqrt(T))
      put_price_dividend = K * np.exp(-r * T) * si.stats.norm.cdf(-d2, 0.0, 1.0) - S * np.exp(-q * T) * si.stats.norm.cdf(-d1, 0.0, 1.0)
      return put_price_dividend
  \<close>
  The dividend rate \<open>q\<close> occurs in the discount factor of the spot only; \<open>d1\<close> and \<open>d2\<close> are
  the expressions of \<^const>\<open>put_option_price\<close>.
\<close>

definition put_option_price_div :: "real \<Rightarrow> real \<Rightarrow> real \<Rightarrow> real \<Rightarrow> real \<Rightarrow> real \<Rightarrow> real" where
  "put_option_price_div S K T r sigma q =
     (let d1 = (ln (S / K) + (r + 0.5 * sigma ^ 2) * T) / (sigma * sqrt T);
          d2 = (ln (S / K) + (r - 0.5 * sigma ^ 2) * T) / (sigma * sqrt T);
          put_price_dividend =
            K * exp (- r * T) * norm_cdf (- d2) 0 1 - S * exp (- q * T) * norm_cdf (- d1) 0 1
      in put_price_dividend)"

text \<open>
  \<^verbatim>\<open>
  def put_option_price_div_sym(S, K, T, r, sigma, q):
      N = systats.Normal(0.0, 1.0)
      S = float(S)
      d1 = (sy.ln(S / K) + (r + 0.5 * sigma ** 2) * T) / (sigma * sy.sqrt(T))
      d2 = (sy.ln(S / K) + (r - 0.5 * sigma ** 2) * T) / (sigma * sy.sqrt(T))
      put_price_dividend = K * sy.exp(-r * T) * N.cdf(-d2) - S * sy.exp(-q * T) * N.cdf(-d1)
      return put_price_dividend
  \<close>
\<close>

definition put_option_price_div_sym :: "real \<Rightarrow> real \<Rightarrow> real \<Rightarrow> real \<Rightarrow> real \<Rightarrow> real \<Rightarrow> real" where
  "put_option_price_div_sym S K T r sigma q =
     (let N = Normal_cdf 0 1;
          d1 = (ln (S / K) + (r + 0.5 * sigma ^ 2) * T) / (sigma * sqrt T);
          d2 = (ln (S / K) + (r - 0.5 * sigma ^ 2) * T) / (sigma * sqrt T);
          put_price_dividend = K * exp (- r * T) * N (- d2) - S * exp (- q * T) * N (- d1)
      in put_price_dividend)"

section \<open>Auxiliary definitions\<close>

text \<open>The coefficients of the error function's series as a power series in \<open>x\<close>.\<close>

definition erf_ps :: "nat \<Rightarrow> real" where
  "erf_ps n = (if even n then 0 else erf_coeff ((n - 1) div 2))"

text \<open>
  The expressions bound to the local variables \<^verbatim>\<open>d1\<close> and \<^verbatim>\<open>d2\<close> in all four functions of
  the notebook.
\<close>

definition bs_d1 :: "real \<Rightarrow> real \<Rightarrow> real \<Rightarrow> real \<Rightarrow> real \<Rightarrow> real" where
  "bs_d1 S K T r sigma = (ln (S / K) + (r + 0.5 * sigma ^ 2) * T) / (sigma * sqrt T)"

definition bs_d2 :: "real \<Rightarrow> real \<Rightarrow> real \<Rightarrow> real \<Rightarrow> real \<Rightarrow> real" where
  "bs_d2 S K T r sigma = (ln (S / K) + (r - 0.5 * sigma ^ 2) * T) / (sigma * sqrt T)"

text \<open>
  The common shape of the two put formulas: the strike leg as the code computes it at spot
  \<open>x\<close>, and the spot leg with an arbitrary factor \<open>c\<close> in front of the distribution function.
\<close>

definition discounted_put :: "real \<Rightarrow> real \<Rightarrow> real \<Rightarrow> real \<Rightarrow> real \<Rightarrow> real \<Rightarrow> real" where
  "discounted_put K T r sigma c x =
     K * exp (- r * T) * ndtr (- bs_d2 x K T r sigma) - c * ndtr (- bs_d1 x K T r sigma)"

text \<open>
  The pricing formula as section 4.1 of the specification words it, with the dividend yield
  \<open>q\<close> in the drift term of \<open>d1\<close> and \<open>d2 = d1 - sigma * sqrt T\<close>.
\<close>

definition spec_d1 :: "real \<Rightarrow> real \<Rightarrow> real \<Rightarrow> real \<Rightarrow> real \<Rightarrow> real \<Rightarrow> real" where
  "spec_d1 S K T r sigma q = (ln (S / K) + (r - q + 0.5 * sigma ^ 2) * T) / (sigma * sqrt T)"

definition spec_d2 :: "real \<Rightarrow> real \<Rightarrow> real \<Rightarrow> real \<Rightarrow> real \<Rightarrow> real \<Rightarrow> real" where
  "spec_d2 S K T r sigma q = spec_d1 S K T r sigma q - sigma * sqrt T"

definition spec_put_price :: "real \<Rightarrow> real \<Rightarrow> real \<Rightarrow> real \<Rightarrow> real \<Rightarrow> real \<Rightarrow> real" where
  "spec_put_price S K T r sigma q =
     K * exp (- r * T) * ndtr (- spec_d2 S K T r sigma q)
       - S * exp (- q * T) * ndtr (- spec_d1 S K T r sigma q)"


section \<open>Binary64 values and the native exceptions\<close>

text \<open>
  The real-valued functions above read the formula in exact arithmetic. The code computes
  in binary64, and outside the domain \<open>S > 0\<close>, \<open>K > 0\<close>, \<open>T > 0\<close>, \<open>sigma > 0\<close> (and at its
  edges) it meets the special values of that format and two native exceptions. The functions
  below are the bodies of \<^verbatim>\<open>put_option_price\<close> and \<^verbatim>\<open>put_option_price_div\<close> once more, over
  floats that are a finite real (\<open>Fin 0\<close> is \<open>+0.0\<close>), the negative zero, an infinity or NaN.

  The model keeps the exponent range of binary64 and leaves out the rounding of the
  significand: a result of magnitude \<open>2^1024 - 2^970\<close> or more (the values that round to
  nearest beyond the largest float) overflows, a result of magnitude \<open>2^-1075\<close> or less (the
  values that round to nearest below the smallest subnormal) becomes a zero of the same
  sign, and every other result is exact. The \<^verbatim>\<open>RuntimeWarning\<close>s that numpy prints when it
  produces NaN or an infinity are not modelled either: with numpy's default error state they
  do not interrupt the call.
\<close>

datatype npfloat = Fin real | NegZero | PInf | NInf | NaN

text \<open>
  \<^verbatim>\<open>ZeroDivisionError\<close> is what Python raises for the float division \<^verbatim>\<open>S / K\<close> by zero,
  \<^verbatim>\<open>OverflowError\<close> what it raises when \<^verbatim>\<open>float(S)\<close> is given an int beyond the float range or
  when the float power \<^verbatim>\<open>sigma ** 2\<close> overflows. \<open>InvalidInput\<close> and \<open>DomainError\<close> are the
  structured failures that the specification names; the notebook defines no such exceptions
  and has no \<^verbatim>\<open>raise\<close>.
\<close>

datatype py_error = ZeroDivisionError | OverflowError | InvalidInput | DomainError

fun is_nan :: "npfloat \<Rightarrow> bool" where
  "is_nan NaN = True"
| "is_nan _ = False"

fun is_inf :: "npfloat \<Rightarrow> bool" where
  "is_inf PInf = True"
| "is_inf NInf = True"
| "is_inf _ = False"

fun is_zero :: "npfloat \<Rightarrow> bool" where
  "is_zero (Fin v) = (v = 0)"
| "is_zero NegZero = True"
| "is_zero _ = False"

fun signbit :: "npfloat \<Rightarrow> bool" where
  "signbit (Fin v) = (v < 0)"
| "signbit NegZero = True"
| "signbit NInf = True"
| "signbit _ = False"

fun fval :: "npfloat \<Rightarrow> real" where
  "fval (Fin v) = v"
| "fval _ = 0"

definition signed_zero :: "bool \<Rightarrow> npfloat" where
  "signed_zero s = (if s then NegZero else Fin 0)"

definition signed_inf :: "bool \<Rightarrow> npfloat" where
  "signed_inf s = (if s then NInf else PInf)"

text \<open>The finite floats, of either zero sign.\<close>

definition is_fin :: "npfloat \<Rightarrow> bool" where
  "is_fin x = (\<not> is_nan x \<and> \<not> is_inf x)"

text \<open>The two thresholds of the exponent range.\<close>

definition b64_huge :: real where
  "b64_huge = 2 ^ 1024 - 2 ^ 970"

definition b64_tiny :: real where
  "b64_tiny = 1 / 2 ^ 1075"

text \<open>
  The float for an exact result \<open>v\<close>; \<open>s\<close> is the sign that the operation gives to an exact
  zero.
\<close>

definition to_b64 :: "bool \<Rightarrow> real \<Rightarrow> npfloat" where
  "to_b64 s v =
     (if b64_huge \<le> \<bar>v\<bar> then signed_inf (v < 0)
      else if \<bar>v\<bar> \<le> b64_tiny then signed_zero (if v = 0 then s else v < 0)
      else Fin v)"

text \<open>Negation, product, quotient and sum of IEEE 754.\<close>

fun fneg :: "npfloat \<Rightarrow> npfloat" where
  "fneg (Fin v) = (if v = 0 then NegZero else Fin (- v))"
| "fneg NegZero = Fin 0"
| "fneg PInf = NInf"
| "fneg NInf = PInf"
| "fneg NaN = NaN"

definition fmul :: "npfloat \<Rightarrow> npfloat \<Rightarrow> npfloat" where
  "fmul x y =
     (if is_nan x \<or> is_nan y then NaN
      else if is_inf x \<or> is_inf y then
        (if is_zero x \<or> is_zero y then NaN else signed_inf (signbit x \<noteq> signbit y))
      else to_b64 (signbit x \<noteq> signbit y) (fval x * fval y))"

definition fdiv :: "npfloat \<Rightarrow> npfloat \<Rightarrow> npfloat" where
  "fdiv x y =
     (if is_nan x \<or> is_nan y then NaN
      else if is_inf x then (if is_inf y then NaN else signed_inf (signbit x \<noteq> signbit y))
      else if is_inf y then signed_zero (signbit x \<noteq> signbit y)
      else if is_zero y then (if is_zero x then NaN else signed_inf (signbit x \<noteq> signbit y))
      else to_b64 (signbit x \<noteq> signbit y) (fval x / fval y))"

definition fadd :: "npfloat \<Rightarrow> npfloat \<Rightarrow> npfloat" where
  "fadd x y =
     (if is_nan x \<or> is_nan y then NaN
      else if is_inf x then (if is_inf y \<and> x \<noteq> y then NaN else x)
      else if is_inf y then y
      else if x = NegZero \<and> y = NegZero then NegZero
      else to_b64 False (fval x + fval y))"

definition fsub :: "npfloat \<Rightarrow> npfloat \<Rightarrow> npfloat" where
  "fsub x y = fadd x (fneg y)"

text \<open>
  \<^verbatim>\<open>float(S)\<close>: \<open>S\<close> is a Python int or float. A float is returned as it is; an int is
  converted, and Python raises \<^verbatim>\<open>OverflowError\<close> for an int that is too large. A real number
  beyond the float range can only be such an int.
\<close>

definition py_float :: "real \<Rightarrow> py_error + npfloat" where
  "py_float v = (if b64_huge \<le> \<bar>v\<bar> then Inl OverflowError else Inr (to_b64 False v))"

text \<open>
  The other arguments are used as they are passed, and are taken to be Python floats: the
  real number \<open>v\<close> stands for the float that the literal \<open>v\<close> denotes.
\<close>

definition py_arg :: "real \<Rightarrow> npfloat" where
  "py_arg v = to_b64 False v"

text \<open>
  The division of two Python floats raises on a zero divisor; the division of numpy
  scalars (\<^const>\<open>fdiv\<close>) returns an infinity or NaN instead. The other operators of Python
  floats (\<^verbatim>\<open>+\<close>, \<^verbatim>\<open>-\<close>, \<^verbatim>\<open>*\<close>) do not raise: they are \<^const>\<open>fadd\<close>, \<^const>\<open>fsub\<close> and \<^const>\<open>fmul\<close>.
\<close>

definition py_truediv :: "npfloat \<Rightarrow> npfloat \<Rightarrow> py_error + npfloat" where
  "py_truediv x y = (if is_zero y then Inl ZeroDivisionError else Inr (fdiv x y))"

text \<open>
  \<^verbatim>\<open>sigma ** 2\<close> on a Python float: the power raises \<^verbatim>\<open>OverflowError\<close> when the square of a
  finite float overflows, and returns a zero when it underflows.
\<close>

definition py_pow2 :: "npfloat \<Rightarrow> py_error + npfloat" where
  "py_pow2 x =
     (if is_fin x \<and> b64_huge \<le> (fval x)\<^sup>2 then Inl OverflowError else Inr (fmul x x))"

text \<open>
  \<^verbatim>\<open>np.log\<close>, \<^verbatim>\<open>np.sqrt\<close> and \<^verbatim>\<open>np.exp\<close>: NaN for a negative argument of the logarithm or the
  square root, \<open>-inf\<close> for the logarithm of a zero, an infinity or a zero where the
  exponential leaves the range.
\<close>

definition np_log :: "npfloat \<Rightarrow> npfloat" where
  "np_log x =
     (if is_nan x then NaN
      else if is_zero x then NInf
      else if signbit x then NaN
      else if is_inf x then PInf
      else to_b64 False (ln (fval x)))"

definition np_sqrt :: "npfloat \<Rightarrow> npfloat" where
  "np_sqrt x =
     (if is_nan x then NaN
      else if is_zero x then x
      else if signbit x then NaN
      else if is_inf x then PInf
      else to_b64 False (sqrt (fval x)))"

definition np_exp :: "npfloat \<Rightarrow> npfloat" where
  "np_exp x =
     (if is_nan x then NaN
      else if is_inf x then (if signbit x then Fin 0 else PInf)
      else to_b64 False (exp (fval x)))"

text \<open>
  \<^verbatim>\<open>scipy.stats.norm.cdf(x, 0.0, 1.0)\<close>: NaN for NaN, \<open>0\<close> and \<open>1\<close> at the infinities, and \<open>0.0\<close>
  where the value of the distribution function is below the smallest subnormal.
\<close>

definition norm_cdf_fl :: "npfloat \<Rightarrow> npfloat" where
  "norm_cdf_fl x =
     (if is_nan x then NaN
      else if is_inf x then (if signbit x then Fin 0 else Fin 1)
      else to_b64 False (ndtr (fval x)))"

text \<open>
  The body of \<^verbatim>\<open>put_option_price\<close> with these operations, in the order in which Python
  evaluates it: \<^verbatim>\<open>float(S)\<close>, then in the line of \<^verbatim>\<open>d1\<close> the left operand \<^verbatim>\<open>np.log(S / K)\<close> and
  after it \<^verbatim>\<open>sigma ** 2\<close>. The lines of \<^verbatim>\<open>d2\<close> and \<^verbatim>\<open>put_price\<close> repeat these operations on the
  same values and raise nothing new. \<^verbatim>\<open>S / K\<close>, \<^verbatim>\<open>r + 0.5 * sigma ** 2\<close>, \<^verbatim>\<open>(...) * T\<close> and \<^verbatim>\<open>-r * T\<close>
  are Python arithmetic; everything that involves a result of \<^verbatim>\<open>np.log\<close>, \<^verbatim>\<open>np.sqrt\<close>,
  \<^verbatim>\<open>np.exp\<close> or \<^verbatim>\<open>norm.cdf\<close> is numpy arithmetic. The source has no check and no \<^verbatim>\<open>raise\<close>.
\<close>

definition put_option_price_fl :: "real \<Rightarrow> real \<Rightarrow> real \<Rightarrow> real \<Rightarrow> real \<Rightarrow> py_error + npfloat" where
  "put_option_price_fl S K T r sigma =
     (case py_float S of
        Inl e \<Rightarrow> Inl e
      | Inr S' \<Rightarrow>
     (case py_truediv S' (py_arg K) of
        Inl e \<Rightarrow> Inl e
      | Inr m \<Rightarrow>
     (case py_pow2 (py_arg sigma) of
        Inl e \<Rightarrow> Inl e
      | Inr sq \<Rightarrow>
          (let d1 = fdiv (fadd (np_log m) (fmul (fadd (py_arg r) (fmul (Fin 0.5) sq)) (py_arg T)))
                         (fmul (py_arg sigma) (np_sqrt (py_arg T)));
               d2 = fdiv (fadd (np_log m) (fmul (fsub (py_arg r) (fmul (Fin 0.5) sq)) (py_arg T)))
                         (fmul (py_arg sigma) (np_sqrt (py_arg T)));
               put_price =
                 fsub (fmul (fmul (py_arg K) (np_exp (fmul (fneg (py_arg r)) (py_arg T))))
                            (norm_cdf_fl (fneg d2)))
                      (fmul S' (norm_cdf_fl (fneg d1)))
           in Inr put_price))))"

text \<open>The body of \<^verbatim>\<open>put_option_price_div\<close> in the same way.\<close>

definition put_option_price_div_fl :: "real \<Rightarrow> real \<Rightarrow> real \<Rightarrow> real \<Rightarrow> real \<Rightarrow> real \<Rightarrow> py_error + npfloat" where
  "put_option_price_div_fl S K T r sigma q =
     (case py_float S of
        Inl e \<Rightarrow> Inl e
      | Inr S' \<Rightarrow>
     (case py_truediv S' (py_arg K) of
        Inl e \<Rightarrow> Inl e
      | Inr m \<Rightarrow>
     (case py_pow2 (py_arg sigma) of
        Inl e \<Rightarrow> Inl e
      | Inr sq \<Rightarrow>
          (let d1 = fdiv (fadd (np_log m) (fmul (fadd (py_arg r) (fmul (Fin 0.5) sq)) (py_arg T)))
                         (fmul (py_arg sigma) (np_sqrt (py_arg T)));
               d2 = fdiv (fadd (np_log m) (fmul (fsub (py_arg r) (fmul (Fin 0.5) sq)) (py_arg T)))
                         (fmul (py_arg sigma) (np_sqrt (py_arg T)));
               put_price_dividend =
                 fsub (fmul (fmul (py_arg K) (np_exp (fmul (fneg (py_arg r)) (py_arg T))))
                            (norm_cdf_fl (fneg d2)))
                      (fmul (fmul S' (np_exp (fmul (fneg (py_arg q)) (py_arg T))))
                            (norm_cdf_fl (fneg d1)))
           in Inr put_price_dividend))))"

section \<open>The two cumulative distribution functions agree\<close>

lemma norm_cdf_std: "norm_cdf x 0 1 = ndtr x"
  by (simp add: norm_cdf_def)

lemma Normal_cdf_std: "Normal_cdf 0 1 x = ndtr x"
  by (simp add: Normal_cdf_def ndtr_def)

section \<open>The error function: convergence, symmetry, derivative\<close>

lemma erf_term_bound: "norm (erf_coeff k * x ^ (2 * k + 1)) \<le> \<bar>x\<bar> * ((x\<^sup>2) ^ k / fact k)"
proof -
  have "\<bar>x\<bar> ^ (2 * k + 1) = \<bar>x\<bar> * (x\<^sup>2) ^ k"
    by (simp add: power_mult)
  then have "norm (erf_coeff k * x ^ (2 * k + 1)) = \<bar>x\<bar> * ((x\<^sup>2) ^ k / fact k) / real (2 * k + 1)"
    by (simp add: erf_coeff_def abs_mult power_abs del: power_Suc)
  also have "\<dots> \<le> \<bar>x\<bar> * ((x\<^sup>2) ^ k / fact k) / 1"
    by (intro divide_left_mono mult_nonneg_nonneg) auto
  finally show ?thesis by simp
qed

lemma erf_summable: "summable (\<lambda>k. erf_coeff k * x ^ (2 * k + 1))"
proof (rule summable_comparison_test')
  have "summable (\<lambda>k. (x\<^sup>2) ^ k /\<^sub>R fact k)" by (rule summable_exp_generic)
  then have "summable (\<lambda>k. (x\<^sup>2) ^ k / fact k)" by (simp add: divide_inverse mult.commute)
  then show "summable (\<lambda>k. \<bar>x\<bar> * ((x\<^sup>2) ^ k / fact k))" by (rule summable_mult)
  show "\<And>n. n \<ge> 0 \<Longrightarrow> norm (erf_coeff n * x ^ (2 * n + 1)) \<le> \<bar>x\<bar> * ((x\<^sup>2) ^ n / fact n)"
    by (rule erf_term_bound)
qed

lemma erf_ps_sums: "(\<lambda>n. erf_ps n * x ^ n) sums (\<Sum>k. erf_coeff k * x ^ (2 * k + 1))"
proof -
  have "(\<lambda>n. if even n then 0 else erf_coeff ((n - 1) div 2) * x ^ (2 * ((n - 1) div 2) + 1))
          sums (\<Sum>k. erf_coeff k * x ^ (2 * k + 1))"
    using sums_if' [OF summable_sums [OF erf_summable [of x]]] by simp
  moreover have "(\<lambda>n. if even n then 0 else erf_coeff ((n - 1) div 2) * x ^ (2 * ((n - 1) div 2) + 1))
      = (\<lambda>n. erf_ps n * x ^ n)"
  proof
    fix n :: nat
    show "(if even n then 0 else erf_coeff ((n - 1) div 2) * x ^ (2 * ((n - 1) div 2) + 1)) = erf_ps n * x ^ n"
    proof (cases "even n")
      case True then show ?thesis by (simp add: erf_ps_def)
    next
      case False
      then have "2 * ((n - 1) div 2) + 1 = n" by (auto elim!: oddE)
      with False show ?thesis by (simp add: erf_ps_def)
    qed
  qed
  ultimately show ?thesis by simp
qed

lemma diffs_erf_ps: "diffs erf_ps n = (if even n then (- 1) ^ (n div 2) / fact (n div 2) else 0)"
  by (auto simp: diffs_def erf_ps_def erf_coeff_def elim!: evenE oddE)

lemma diffs_erf_ps_sums: "(\<lambda>n. diffs erf_ps n * x ^ n) sums exp (- (x\<^sup>2))"
proof -
  have "(\<lambda>k. (- (x\<^sup>2)) ^ k /\<^sub>R fact k) sums exp (- (x\<^sup>2))" by (rule exp_converges)
  then have e: "(\<lambda>k. (- (x\<^sup>2)) ^ k / fact k) sums exp (- (x\<^sup>2))"
    by (simp add: divide_inverse mult.commute)
  have "(\<lambda>n. if even n then (- (x\<^sup>2)) ^ (n div 2) / fact (n div 2) else 0) sums (0 + exp (- (x\<^sup>2)))"
    using sums_if [OF sums_zero e] by simp
  moreover have "(\<lambda>n. if even n then (- (x\<^sup>2)) ^ (n div 2) / fact (n div 2) else 0)
     = (\<lambda>n. diffs erf_ps n * x ^ n)"
  proof
    fix n :: nat
    show "(if even n then (- (x\<^sup>2)) ^ (n div 2) / fact (n div 2) else 0) = diffs erf_ps n * x ^ n"
    proof (cases "even n")
      case True
      then obtain m where "n = 2 * m" by (auto elim: evenE)
      then show ?thesis by (simp add: diffs_erf_ps power_mult power_minus [of "x\<^sup>2"])
    next
      case False then show ?thesis by (simp add: diffs_erf_ps)
    qed
  qed
  ultimately show ?thesis by simp
qed

lemma erf_eq_ps: "erf x = 2 / sqrt pi * (\<Sum>n. erf_ps n * x ^ n)"
  using sums_unique [OF erf_ps_sums [of x]] by (simp add: erf_def)

lemma DERIV_erf: "(erf has_real_derivative 2 / sqrt pi * exp (- (x\<^sup>2))) (at x)"
proof -
  have "((\<lambda>x. \<Sum>n. erf_ps n * x ^ n) has_field_derivative (\<Sum>n. diffs erf_ps n * x ^ n)) (at x)"
    by (rule termdiffs_strong_converges_everywhere) (rule sums_summable [OF erf_ps_sums])
  then have "((\<lambda>x. \<Sum>n. erf_ps n * x ^ n) has_field_derivative exp (- (x\<^sup>2))) (at x)"
    using sums_unique [OF diffs_erf_ps_sums [of x]] by simp
  then have "((\<lambda>x. 2 / sqrt pi * (\<Sum>n. erf_ps n * x ^ n)) has_field_derivative 2 / sqrt pi * exp (- (x\<^sup>2))) (at x)"
    by (rule DERIV_cmult)
  moreover have "erf = (\<lambda>x. 2 / sqrt pi * (\<Sum>n. erf_ps n * x ^ n))"
    by (rule ext) (rule erf_eq_ps)
  ultimately show ?thesis by simp
qed

lemma erf_0: "erf 0 = 0"
  by (simp add: erf_def)

lemma erf_minus: "erf (- x) = - erf x"
proof -
  have "(\<Sum>k. erf_coeff k * (- x) ^ (2 * k + 1)) = (\<Sum>k. - (erf_coeff k * x ^ (2 * k + 1)))"
    by (simp add: power_minus_Bit0 power_mult)
  also have "\<dots> = - (\<Sum>k. erf_coeff k * x ^ (2 * k + 1))"
    by (rule suminf_minus [OF erf_summable])
  finally show ?thesis by (simp add: erf_def)
qed

lemma ndtr_0: "ndtr 0 = 1 / 2" by (simp add: ndtr_def erf_0)

lemma ndtr_minus: "ndtr (- x) = 1 - ndtr x" by (simp add: ndtr_def erf_minus field_simps)

lemma DERIV_ndtr: "(ndtr has_real_derivative exp (- (x\<^sup>2) / 2) / sqrt (2 * pi)) (at x)"
proof -
  have 1: "((\<lambda>x. x / sqrt 2) has_real_derivative 1 / sqrt 2) (at x)"
    using DERIV_cdivide [OF DERIV_ident, of "sqrt 2" x] by simp
  have 2: "((\<lambda>x. erf (x / sqrt 2)) has_real_derivative
       (2 / sqrt pi * exp (- ((x / sqrt 2)\<^sup>2))) * (1 / sqrt 2)) (at x)"
    by (rule DERIV_chain' [OF 1 DERIV_erf])
  have 3: "((\<lambda>x. 1 + erf (x / sqrt 2)) has_real_derivative
       (2 / sqrt pi * exp (- ((x / sqrt 2)\<^sup>2))) * (1 / sqrt 2)) (at x)"
    using DERIV_add [OF DERIV_const 2, of 1] by simp
  have 4: "((\<lambda>x. (1 + erf (x / sqrt 2)) / 2) has_real_derivative
       ((2 / sqrt pi * exp (- ((x / sqrt 2)\<^sup>2))) * (1 / sqrt 2)) / 2) (at x)"
    by (rule DERIV_cdivide [OF 3])
  have 5: "((2 / sqrt pi * exp (- ((x / sqrt 2)\<^sup>2))) * (1 / sqrt 2)) / 2
      = exp (- (x\<^sup>2) / 2) / sqrt (2 * pi)"
    by (simp add: power_divide real_sqrt_mult)
  show ?thesis
    unfolding ndtr_def [abs_def] using 4 unfolding 5 .
qed

section \<open>The put formulas as functions of the spot\<close>

lemma put_option_price_alt:
  "put_option_price S K T r sigma = discounted_put K T r sigma S S"
  by (simp add: put_option_price_def discounted_put_def bs_d1_def bs_d2_def norm_cdf_std)

lemma put_option_price_div_alt:
  "put_option_price_div S K T r sigma q = discounted_put K T r sigma (S * exp (- q * T)) S"
  by (simp add: put_option_price_div_def discounted_put_def bs_d1_def bs_d2_def norm_cdf_std)

lemma bs_d2_eq:
  assumes "0 < T" "0 < sigma"
  shows "bs_d2 S K T r sigma = bs_d1 S K T r sigma - sigma * sqrt T"
proof -
  have "sigma ^ 2 * T = (sigma * sqrt T) * (sigma * sqrt T)"
    using assms by (simp add: power2_eq_square)
  moreover have "sigma * sqrt T \<noteq> 0" using assms by simp
  ultimately show ?thesis
    unfolding bs_d1_def bs_d2_def by (simp add: field_simps)
qed

lemma density_identity:
  assumes "0 < x" "0 < K" "0 < T" "0 < sigma"
  shows "K * exp (- r * T) * exp (- (bs_d2 x K T r sigma)\<^sup>2 / 2)
       = x * exp (- (bs_d1 x K T r sigma)\<^sup>2 / 2)"
proof -
  define a where "a = sigma * sqrt T"
  define u where "u = bs_d1 x K T r sigma"
  have a: "a \<noteq> 0" "a * a = sigma ^ 2 * T" using assms by (simp_all add: a_def power2_eq_square)
  have au: "a * u = ln (x / K) + (r + 0.5 * sigma ^ 2) * T"
    using a(1) by (simp add: u_def bs_d1_def a_def)
  have "- (u - a)\<^sup>2 / 2 = - u\<^sup>2 / 2 + a * u - (a * a) / 2"
    by (simp add: power2_diff field_simps power2_eq_square)
  also have "\<dots> = - u\<^sup>2 / 2 + ln (x / K) + r * T"
    unfolding au a(2) by (simp add: algebra_simps)
  finally have "exp (- (u - a)\<^sup>2 / 2) = exp (- u\<^sup>2 / 2 + ln (x / K) + r * T)"
    by (rule arg_cong)
  also have "\<dots> = exp (- u\<^sup>2 / 2) * exp (ln (x / K)) * exp (r * T)"
    by (simp only: exp_add)
  also have "exp (ln (x / K)) = x / K"
    using assms by simp
  finally have "exp (- (u - a)\<^sup>2 / 2) = exp (- u\<^sup>2 / 2) * (x / K) * exp (r * T)" .
  note A = this
  have B: "bs_d2 x K T r sigma = u - a"
    using bs_d2_eq [OF assms(3,4)] by (simp add: u_def a_def)
  have C: "exp (- r * T) * exp (r * T) = 1"
    by (simp add: exp_add [symmetric])
  have "K * exp (- r * T) * exp (- (bs_d2 x K T r sigma)\<^sup>2 / 2)
      = K * exp (- r * T) * (exp (- u\<^sup>2 / 2) * (x / K) * exp (r * T))"
    unfolding B A ..
  also have "\<dots> = x * exp (- u\<^sup>2 / 2) * (exp (- r * T) * exp (r * T))"
    using assms by (simp add: field_simps)
  also have "\<dots> = x * exp (- u\<^sup>2 / 2)"
    unfolding C by simp
  finally show ?thesis unfolding u_def .
qed

lemma DERIV_bs_d1:
  assumes "0 < x" "0 < K" "0 < T" "0 < sigma"
  shows "((\<lambda>x. bs_d1 x K T r sigma) has_real_derivative 1 / (x * (sigma * sqrt T))) (at x)"
  unfolding bs_d1_def using assms
  by (auto intro!: derivative_eq_intros simp: field_simps)

lemma DERIV_bs_d2:
  assumes "0 < x" "0 < K" "0 < T" "0 < sigma"
  shows "((\<lambda>x. bs_d2 x K T r sigma) has_real_derivative 1 / (x * (sigma * sqrt T))) (at x)"
  unfolding bs_d2_def using assms
  by (auto intro!: derivative_eq_intros simp: field_simps)

lemma DERIV_ndtr_neg:
  assumes "(f has_real_derivative D) (at x)"
  shows "((\<lambda>x. ndtr (- f x)) has_real_derivative
           - (exp (- (f x)\<^sup>2 / 2) / sqrt (2 * pi) * D)) (at x)"
proof -
  have "((\<lambda>x. - f x) has_real_derivative - D) (at x)"
    using assms by (rule DERIV_minus)
  from DERIV_chain' [OF this DERIV_ndtr] show ?thesis by simp
qed

lemma DERIV_discounted_put:
  assumes "0 < x" "0 < K" "0 < T" "0 < sigma"
  shows "((\<lambda>x. discounted_put K T r sigma c x) has_real_derivative
           exp (- (bs_d1 x K T r sigma)\<^sup>2 / 2) / sqrt (2 * pi) * ((c - x) / (x * (sigma * sqrt T)))) (at x)"
proof -
  let ?a = "sigma * sqrt T"
  let ?p1 = "exp (- (bs_d1 x K T r sigma)\<^sup>2 / 2)"
  let ?p2 = "exp (- (bs_d2 x K T r sigma)\<^sup>2 / 2)"
  have 1: "((\<lambda>x. K * exp (- r * T) * ndtr (- bs_d2 x K T r sigma)) has_real_derivative
           K * exp (- r * T) * - (?p2 / sqrt (2 * pi) * (1 / (x * ?a)))) (at x)"
    by (rule DERIV_cmult [OF DERIV_ndtr_neg [OF DERIV_bs_d2 [OF assms]]])
  have 2: "((\<lambda>x. c * ndtr (- bs_d1 x K T r sigma)) has_real_derivative
           c * - (?p1 / sqrt (2 * pi) * (1 / (x * ?a)))) (at x)"
    by (rule DERIV_cmult [OF DERIV_ndtr_neg [OF DERIV_bs_d1 [OF assms]]])
  have 3: "((\<lambda>x. K * exp (- r * T) * ndtr (- bs_d2 x K T r sigma) - c * ndtr (- bs_d1 x K T r sigma))
      has_real_derivative
           K * exp (- r * T) * - (?p2 / sqrt (2 * pi) * (1 / (x * ?a)))
           - c * - (?p1 / sqrt (2 * pi) * (1 / (x * ?a)))) (at x)"
    by (rule DERIV_diff [OF 1 2])
  have "K * exp (- r * T) * - (?p2 / sqrt (2 * pi) * (1 / (x * ?a)))
      - c * - (?p1 / sqrt (2 * pi) * (1 / (x * ?a)))
      = (c * ?p1 - (K * exp (- r * T) * ?p2)) / (sqrt (2 * pi) * (x * ?a))"
    by (simp add: divide_simps)
  also have "\<dots> = (c * ?p1 - x * ?p1) / (sqrt (2 * pi) * (x * ?a))"
    unfolding density_identity [OF assms] ..
  also have "\<dots> = ?p1 / sqrt (2 * pi) * ((c - x) / (x * ?a))"
    by (simp add: field_simps)
  finally have eq: "K * exp (- r * T) * - (?p2 / sqrt (2 * pi) * (1 / (x * ?a)))
      - c * - (?p1 / sqrt (2 * pi) * (1 / (x * ?a))) = ?p1 / sqrt (2 * pi) * ((c - x) / (x * ?a))" .
  show ?thesis
    unfolding discounted_put_def [abs_def] using 3 unfolding eq .
qed

lemma discounted_put_strict_max:
  assumes "0 < x" "0 < c" "x \<noteq> c" "0 < K" "0 < T" "0 < sigma"
  shows "discounted_put K T r sigma c x < discounted_put K T r sigma c c"
proof -
  let ?f = "discounted_put K T r sigma c"
  let ?f' = "\<lambda>x. exp (- (bs_d1 x K T r sigma)\<^sup>2 / 2) / sqrt (2 * pi) * ((c - x) / (x * (sigma * sqrt T)))"
  have pos: "0 < exp (- (bs_d1 z K T r sigma)\<^sup>2 / 2) / sqrt (2 * pi)" for z
    by simp
  have a: "0 < sigma * sqrt T" using assms by simp
  have d: "(?f has_real_derivative ?f' z) (at z)" if "0 < z" for z
    by (rule DERIV_discounted_put [OF that assms(4-6)])
  consider "x < c" | "c < x" using assms(3) by linarith
  then show ?thesis
  proof cases
    case 1
    have "\<exists>z>x. z < c \<and> ?f c - ?f x = (c - x) * ?f' z"
    proof (rule MVT2 [OF 1])
      fix z assume "x \<le> z" "z \<le> c"
      then have "0 < z" using assms by linarith
      then show "(?f has_real_derivative ?f' z) (at z)" by (rule d)
    qed
    then obtain z where z: "x < z" "z < c" "?f c - ?f x = (c - x) * ?f' z" by blast
    have "0 < (c - z) / (z * (sigma * sqrt T))" using z assms a by simp
    then have "0 < ?f' z" using pos [of z] by (rule mult_pos_pos [rotated])
    moreover have "0 < c - x" using 1 by simp
    ultimately have "0 < (c - x) * ?f' z" by (rule mult_pos_pos [rotated])
    with z(3) show ?thesis by linarith
  next
    case 2
    have "\<exists>z>c. z < x \<and> ?f x - ?f c = (x - c) * ?f' z"
    proof (rule MVT2 [OF 2])
      fix z assume "c \<le> z" "z \<le> x"
      then have "0 < z" using assms by linarith
      then show "(?f has_real_derivative ?f' z) (at z)" by (rule d)
    qed
    then obtain z where z: "c < z" "z < x" "?f x - ?f c = (x - c) * ?f' z" by blast
    have "(c - z) / (z * (sigma * sqrt T)) < 0" using z assms a by (simp add: divide_neg_pos)
    then have "?f' z < 0" by (rule mult_pos_neg [OF pos])
    moreover have "0 < x - c" using 2 by simp
    ultimately have "(x - c) * ?f' z < 0" by (rule mult_pos_neg [rotated])
    with z(3) show ?thesis by linarith
  qed
qed

lemma div_underprices:
  assumes "0 < S" "0 < K" "0 < T" "0 < sigma" "q \<noteq> 0"
  shows "put_option_price_div S K T r sigma q < put_option_price (S * exp (- q * T)) K T r sigma"
proof -
  have "S * exp (- q * T) \<noteq> S" using assms by simp
  then show ?thesis
    unfolding put_option_price_alt put_option_price_div_alt
    using assms by (intro discounted_put_strict_max) auto
qed

section \<open>The error function stays below one and tends to one\<close>

text \<open>
  The bound \<open>1 - 4 / pi * exp (- x\<^sup>2) \<le> erf x \<le> 1\<close> for \<open>x \<ge> 0\<close> is the value of the Gaussian
  integral. It is obtained here from the function
  \<open>x \<mapsto> (erf x)\<^sup>2 + 4 / pi * (1 / N) * (\<Sum>i<N. exp (- x\<^sup>2 * (1 + t\<^sub>i\<^sup>2)) / (1 + t\<^sub>i\<^sup>2))\<close>, which is
  monotone for left and for right sample points \<open>t\<^sub>i\<close> in \<open>[0, 1]\<close> and whose value at \<open>0\<close> is
  a Riemann sum of \<open>4 / pi * arctan 1\<close>.
\<close>

lemma erf_increment:
  assumes "0 \<le> a" "a \<le> b"
  shows "2 / sqrt pi * ((b - a) * exp (- (b\<^sup>2))) \<le> erf b - erf a"
    and "erf b - erf a \<le> 2 / sqrt pi * ((b - a) * exp (- (a\<^sup>2)))"
proof -
  have *: "2 / sqrt pi * ((b - a) * exp (- (b\<^sup>2))) \<le> erf b - erf a \<and>
        erf b - erf a \<le> 2 / sqrt pi * ((b - a) * exp (- (a\<^sup>2)))"
  proof (cases "a = b")
    case True
    then show ?thesis by simp
  next
    case False
    then have "a < b" using assms by simp
    then have "\<exists>z>a. z < b \<and> erf b - erf a = (b - a) * (2 / sqrt pi * exp (- (z\<^sup>2)))"
      by (rule MVT2) (rule DERIV_erf)
    then obtain z where z: "a < z" "z < b" "erf b - erf a = (b - a) * (2 / sqrt pi * exp (- (z\<^sup>2)))"
      by blast
    have "a\<^sup>2 \<le> z\<^sup>2" "z\<^sup>2 \<le> b\<^sup>2"
      using z assms by (simp_all add: power_mono)
    then have "exp (- (b\<^sup>2)) \<le> exp (- (z\<^sup>2))" "exp (- (z\<^sup>2)) \<le> exp (- (a\<^sup>2))"
      by simp_all
    moreover have "0 \<le> 2 / sqrt pi * (b - a)"
      using \<open>a < b\<close> by simp
    ultimately have "2 / sqrt pi * (b - a) * exp (- (b\<^sup>2)) \<le> 2 / sqrt pi * (b - a) * exp (- (z\<^sup>2))"
      "2 / sqrt pi * (b - a) * exp (- (z\<^sup>2)) \<le> 2 / sqrt pi * (b - a) * exp (- (a\<^sup>2))"
      by (simp_all only: mult_left_mono)
    moreover have "erf b - erf a = 2 / sqrt pi * (b - a) * exp (- (z\<^sup>2))"
      unfolding z(3) by (simp only: mult_ac)
    ultimately show ?thesis by (simp only: mult.assoc)
  qed
  show "2 / sqrt pi * ((b - a) * exp (- (b\<^sup>2))) \<le> erf b - erf a" using * by blast
  show "erf b - erf a \<le> 2 / sqrt pi * ((b - a) * exp (- (a\<^sup>2)))" using * by blast
qed

lemma arctan_increment:
  assumes "0 \<le> a" "a \<le> b"
  shows "(b - a) / (1 + b\<^sup>2) \<le> arctan b - arctan a"
    and "arctan b - arctan a \<le> (b - a) / (1 + a\<^sup>2)"
proof -
  have *: "(b - a) / (1 + b\<^sup>2) \<le> arctan b - arctan a \<and> arctan b - arctan a \<le> (b - a) / (1 + a\<^sup>2)"
  proof (cases "a = b")
    case True
    then show ?thesis by simp
  next
    case False
    then have "a < b" using assms by simp
    then have "\<exists>z>a. z < b \<and> arctan b - arctan a = (b - a) * inverse (1 + z\<^sup>2)"
      by (rule MVT2) (rule DERIV_arctan)
    then obtain z where z: "a < z" "z < b" "arctan b - arctan a = (b - a) * inverse (1 + z\<^sup>2)"
      by blast
    have "a\<^sup>2 \<le> z\<^sup>2" "z\<^sup>2 \<le> b\<^sup>2"
      using z assms by (simp_all add: power_mono)
    then have "inverse (1 + b\<^sup>2) \<le> inverse (1 + z\<^sup>2)" "inverse (1 + z\<^sup>2) \<le> inverse (1 + a\<^sup>2)"
      by (simp_all add: le_imp_inverse_le add_pos_nonneg)
    then have "(b - a) * inverse (1 + b\<^sup>2) \<le> (b - a) * inverse (1 + z\<^sup>2)"
      "(b - a) * inverse (1 + z\<^sup>2) \<le> (b - a) * inverse (1 + a\<^sup>2)"
      using \<open>a < b\<close> by (simp_all add: mult_left_mono)
    then show ?thesis unfolding z(3) by (simp add: divide_inverse)
  qed
  show "(b - a) / (1 + b\<^sup>2) \<le> arctan b - arctan a" using * by blast
  show "arctan b - arctan a \<le> (b - a) / (1 + a\<^sup>2)" using * by blast
qed

text \<open>Riemann sums of \<open>exp (- s\<^sup>2)\<close> over \<open>[0, x]\<close> enclose \<open>erf x\<close>.\<close>

lemma erf_le_left_sum:
  assumes "0 \<le> x"
  shows "erf x \<le> 2 / sqrt pi * (x / real (Suc n) * (\<Sum>i<Suc n. exp (- ((x * (real i / real (Suc n)))\<^sup>2))))"
proof -
  let ?N = "real (Suc n)"
  let ?p = "\<lambda>i. x * (real i / ?N)"
  have step: "erf (?p (Suc i)) - erf (?p i) \<le> 2 / sqrt pi * (x / ?N * exp (- ((?p i)\<^sup>2)))" for i
  proof -
    have "0 \<le> ?p i" using assms by simp
    moreover have "?p i \<le> ?p (Suc i)"
      using assms by (intro mult_left_mono divide_right_mono) auto
    ultimately have "erf (?p (Suc i)) - erf (?p i) \<le> 2 / sqrt pi * ((?p (Suc i) - ?p i) * exp (- ((?p i)\<^sup>2)))"
      by (rule erf_increment(2))
    moreover have "?p (Suc i) - ?p i = x * ((real (Suc i) - real i) / ?N)"
      by (simp only: right_diff_distrib diff_divide_distrib)
    then have "?p (Suc i) - ?p i = x / ?N"
      by simp
    ultimately show ?thesis by (simp only:)
  qed
  have "erf x = erf (?p (Suc n)) - erf (?p 0)"
    by (simp add: erf_0 del: of_nat_Suc)
  also have "\<dots> = (\<Sum>i<Suc n. erf (?p (Suc i)) - erf (?p i))"
    by (rule sum_lessThan_telescope [symmetric])
  also have "\<dots> \<le> (\<Sum>i<Suc n. 2 / sqrt pi * (x / ?N * exp (- ((?p i)\<^sup>2))))"
    by (rule sum_mono) (rule step)
  also have "\<dots> = 2 / sqrt pi * (x / ?N * (\<Sum>i<Suc n. exp (- ((?p i)\<^sup>2))))"
    by (simp only: sum_distrib_left)
  finally show ?thesis .
qed

lemma erf_ge_right_sum:
  assumes "0 \<le> x"
  shows "2 / sqrt pi * (x / real (Suc n) * (\<Sum>i<Suc n. exp (- ((x * (real (Suc i) / real (Suc n)))\<^sup>2)))) \<le> erf x"
proof -
  let ?N = "real (Suc n)"
  let ?p = "\<lambda>i. x * (real i / ?N)"
  have step: "2 / sqrt pi * (x / ?N * exp (- ((?p (Suc i))\<^sup>2))) \<le> erf (?p (Suc i)) - erf (?p i)" for i
  proof -
    have "0 \<le> ?p i" using assms by simp
    moreover have "?p i \<le> ?p (Suc i)"
      using assms by (intro mult_left_mono divide_right_mono) auto
    ultimately have "2 / sqrt pi * ((?p (Suc i) - ?p i) * exp (- ((?p (Suc i))\<^sup>2))) \<le> erf (?p (Suc i)) - erf (?p i)"
      by (rule erf_increment(1))
    moreover have "?p (Suc i) - ?p i = x * ((real (Suc i) - real i) / ?N)"
      by (simp only: right_diff_distrib diff_divide_distrib)
    then have "?p (Suc i) - ?p i = x / ?N"
      by simp
    ultimately show ?thesis by (simp only:)
  qed
  have "2 / sqrt pi * (x / ?N * (\<Sum>i<Suc n. exp (- ((?p (Suc i))\<^sup>2))))
      = (\<Sum>i<Suc n. 2 / sqrt pi * (x / ?N * exp (- ((?p (Suc i))\<^sup>2))))"
    by (simp only: sum_distrib_left)
  also have "\<dots> \<le> (\<Sum>i<Suc n. erf (?p (Suc i)) - erf (?p i))"
    by (rule sum_mono) (rule step)
  also have "\<dots> = erf (?p (Suc n)) - erf (?p 0)"
    by (rule sum_lessThan_telescope)
  also have "\<dots> = erf x"
    by (simp add: erf_0 del: of_nat_Suc)
  finally show ?thesis .
qed

text \<open>Riemann sums of \<open>1 / (1 + t\<^sup>2)\<close> over \<open>[0, 1]\<close> against \<open>arctan 1 = pi / 4\<close>.\<close>

lemma arctan_left_sum:
  "(\<Sum>i<Suc n. 1 / (1 + (real i / real (Suc n))\<^sup>2)) / real (Suc n) \<le> pi / 4 + 1 / real (Suc n)"
proof -
  let ?N = "real (Suc n)"
  let ?t = "\<lambda>i. real i / ?N"
  have step: "1 / (1 + (?t (Suc i))\<^sup>2) / ?N \<le> arctan (?t (Suc i)) - arctan (?t i)" for i
  proof -
    have "0 \<le> ?t i" by simp
    moreover have "?t i \<le> ?t (Suc i)" by (intro divide_right_mono) auto
    ultimately have "(?t (Suc i) - ?t i) / (1 + (?t (Suc i))\<^sup>2) \<le> arctan (?t (Suc i)) - arctan (?t i)"
      by (rule arctan_increment(1))
    moreover have "?t (Suc i) - ?t i = 1 / ?N" by (simp add: field_simps)
    ultimately show ?thesis by (simp add: field_simps)
  qed
  have "(\<Sum>i<Suc n. 1 / (1 + (?t i)\<^sup>2)) / ?N = (\<Sum>i<Suc n. 1 / (1 + (?t i)\<^sup>2) / ?N)"
    by (rule sum_divide_distrib)
  also have "\<dots> = 1 / (1 + (?t 0)\<^sup>2) / ?N + (\<Sum>i<n. 1 / (1 + (?t (Suc i))\<^sup>2) / ?N)"
    by (rule sum.lessThan_Suc_shift)
  also have "\<dots> \<le> 1 / (1 + (?t 0)\<^sup>2) / ?N + (\<Sum>i<n. arctan (?t (Suc i)) - arctan (?t i))"
    by (intro add_left_mono sum_mono step)
  also have "(\<Sum>i<n. arctan (?t (Suc i)) - arctan (?t i)) = arctan (?t n) - arctan (?t 0)"
    by (rule sum_lessThan_telescope)
  also have "1 / (1 + (?t 0)\<^sup>2) / ?N + (arctan (?t n) - arctan (?t 0)) = 1 / ?N + arctan (?t n)"
    by simp
  also have "arctan (?t n) \<le> arctan 1"
    by (simp add: arctan_le_iff)
  finally show ?thesis by (simp add: arctan_one)
qed

lemma arctan_right_sum:
  "pi / 4 - 1 / real (Suc n) \<le> (\<Sum>i<Suc n. 1 / (1 + (real (Suc i) / real (Suc n))\<^sup>2)) / real (Suc n)"
proof -
  let ?N = "real (Suc n)"
  let ?t = "\<lambda>i. real i / ?N"
  have step: "arctan (?t (Suc (Suc i))) - arctan (?t (Suc i)) \<le> 1 / (1 + (?t (Suc i))\<^sup>2) / ?N" for i
  proof -
    have "0 \<le> ?t (Suc i)" by simp
    moreover have "?t (Suc i) \<le> ?t (Suc (Suc i))" by (intro divide_right_mono) auto
    ultimately have "arctan (?t (Suc (Suc i))) - arctan (?t (Suc i))
        \<le> (?t (Suc (Suc i)) - ?t (Suc i)) / (1 + (?t (Suc i))\<^sup>2)"
      by (rule arctan_increment(2))
    moreover have "?t (Suc (Suc i)) - ?t (Suc i) = 1 / ?N" by (simp add: field_simps)
    ultimately show ?thesis by (simp add: field_simps)
  qed
  have "arctan (1 / ?N) \<le> 1 / ?N"
    using arctan_increment(2) [of 0 "1 / ?N"] by simp
  moreover have "arctan 1 \<le> arctan (?t (Suc (Suc n)))"
    by (simp add: arctan_le_iff)
  ultimately have "pi / 4 - 1 / ?N \<le> arctan (?t (Suc (Suc n))) - arctan (?t (Suc 0))"
    by (simp add: arctan_one)
  also have "\<dots> = (\<Sum>i<Suc n. arctan (?t (Suc (Suc i))) - arctan (?t (Suc i)))"
    by (rule sum_lessThan_telescope [symmetric, of "\<lambda>i. arctan (?t (Suc i))"])
  also have "\<dots> \<le> (\<Sum>i<Suc n. 1 / (1 + (?t (Suc i))\<^sup>2) / ?N)"
    by (rule sum_mono) (rule step)
  also have "\<dots> = (\<Sum>i<Suc n. 1 / (1 + (?t (Suc i))\<^sup>2)) / ?N"
    by (rule sum_divide_distrib [symmetric])
  finally show ?thesis .
qed

lemma DERIV_gauss_sample:
  "((\<lambda>x. exp (- (x\<^sup>2 * (1 + t\<^sup>2))) / (1 + t\<^sup>2)) has_real_derivative
      - (2 * x * exp (- (x\<^sup>2 * (1 + t\<^sup>2))))) (at x)"
proof -
  define c where "c = 1 + t\<^sup>2"
  have nz: "c \<noteq> 0"
    using zero_le_power2 [of t] unfolding c_def by linarith
  have 1: "((\<lambda>x. x\<^sup>2 * c) has_real_derivative 2 * x * c) (at x)"
    using DERIV_cmult_right [OF DERIV_power [OF DERIV_ident, of 2 x], of c] by simp
  have 2: "((\<lambda>x. - (x\<^sup>2 * c)) has_real_derivative - (2 * x * c)) (at x)"
    by (rule DERIV_minus [OF 1])
  have 3: "((\<lambda>x. exp (- (x\<^sup>2 * c))) has_real_derivative exp (- (x\<^sup>2 * c)) * - (2 * x * c)) (at x)"
    by (rule DERIV_chain' [OF 2 DERIV_exp])
  have 4: "((\<lambda>x. exp (- (x\<^sup>2 * c)) / c) has_real_derivative exp (- (x\<^sup>2 * c)) * - (2 * x * c) / c) (at x)"
    by (rule DERIV_cdivide [OF 3])
  have eq: "e * - (2 * x * c) / c = - (2 * x * e)" for e
    using nz by simp
  have 5: "((\<lambda>x. exp (- (x\<^sup>2 * c)) / c) has_real_derivative - (2 * x * exp (- (x\<^sup>2 * c)))) (at x)"
    using 4 unfolding eq .
  show ?thesis
    using 5 unfolding c_def .
qed

lemma gauss_sample_split:
  fixes x t :: real
  shows "exp (- (x\<^sup>2 * (1 + t\<^sup>2))) = exp (- (x\<^sup>2)) * exp (- ((x * t)\<^sup>2))"
proof -
  have "- (x\<^sup>2 * (1 + t\<^sup>2)) = - (x\<^sup>2) + - ((x * t)\<^sup>2)"
    by (simp add: power_mult_distrib distrib_left)
  then show ?thesis
    by (simp only: exp_add)
qed

lemma DERIV_erf_sq_plus_samples:
  fixes t :: "nat \<Rightarrow> real"
  shows "((\<lambda>x. (erf x)\<^sup>2 + 4 / pi * ((\<Sum>i<m. exp (- (x\<^sup>2 * (1 + (t i)\<^sup>2))) / (1 + (t i)\<^sup>2)) / N))
      has_real_derivative
        4 / sqrt pi * exp (- (x\<^sup>2)) * (erf x - 2 / sqrt pi * (x / N * (\<Sum>i<m. exp (- ((x * t i)\<^sup>2)))))) (at x)"
proof -
  have 1: "((\<lambda>x. (erf x)\<^sup>2) has_real_derivative 2 * erf x * (2 / sqrt pi * exp (- (x\<^sup>2)))) (at x)"
    using DERIV_power [OF DERIV_erf, of 2 x] by (simp add: mult_ac)
  have 2: "((\<lambda>x. \<Sum>i<m. exp (- (x\<^sup>2 * (1 + (t i)\<^sup>2))) / (1 + (t i)\<^sup>2)) has_real_derivative
       (\<Sum>i<m. - (2 * x * exp (- (x\<^sup>2 * (1 + (t i)\<^sup>2)))))) (at x)"
    by (rule DERIV_sum) (rule DERIV_gauss_sample)
  have 3: "((\<lambda>x. 4 / pi * ((\<Sum>i<m. exp (- (x\<^sup>2 * (1 + (t i)\<^sup>2))) / (1 + (t i)\<^sup>2)) / N)) has_real_derivative
       4 / pi * ((\<Sum>i<m. - (2 * x * exp (- (x\<^sup>2 * (1 + (t i)\<^sup>2))))) / N)) (at x)"
    by (rule DERIV_cmult [OF DERIV_cdivide [OF 2]])
  have "(\<Sum>i<m. - (2 * x * exp (- (x\<^sup>2 * (1 + (t i)\<^sup>2)))))
      = (\<Sum>i<m. - (2 * x * exp (- (x\<^sup>2))) * exp (- ((x * t i)\<^sup>2)))"
    by (simp add: gauss_sample_split mult.assoc)
  also have "\<dots> = - (2 * x * exp (- (x\<^sup>2))) * (\<Sum>i<m. exp (- ((x * t i)\<^sup>2)))"
    by (rule sum_distrib_left [symmetric])
  finally have s: "(\<Sum>i<m. - (2 * x * exp (- (x\<^sup>2 * (1 + (t i)\<^sup>2)))))
      = - (2 * x * exp (- (x\<^sup>2))) * (\<Sum>i<m. exp (- ((x * t i)\<^sup>2)))" .
  have alg: "2 * E * (2 / c * e) + 4 / (c * c) * (- (2 * x * e) * A / N)
      = 4 / c * e * (E - 2 / c * (x / N * A))" if "c \<noteq> 0" for c e E A :: real
    using that by (simp add: field_simps)
  have "2 * erf x * (2 / sqrt pi * exp (- (x\<^sup>2)))
        + 4 / pi * ((\<Sum>i<m. - (2 * x * exp (- (x\<^sup>2 * (1 + (t i)\<^sup>2))))) / N)
      = 4 / sqrt pi * exp (- (x\<^sup>2)) * (erf x - 2 / sqrt pi * (x / N * (\<Sum>i<m. exp (- ((x * t i)\<^sup>2)))))"
    unfolding s using alg [of "sqrt pi" "erf x" "exp (- (x\<^sup>2))" "\<Sum>i<m. exp (- ((x * t i)\<^sup>2))"]
    by simp
  then show ?thesis
    using DERIV_add [OF 1 3] by simp
qed

lemma erf_nonneg:
  assumes "0 \<le> x"
  shows "0 \<le> erf x"
proof -
  have "0 \<le> 2 / sqrt pi * ((x - 0) * exp (- (x\<^sup>2)))"
    using assms by simp
  also have "\<dots> \<le> erf x - erf 0"
    by (rule erf_increment(1)) (use assms in simp_all)
  finally show ?thesis by (simp add: erf_0)
qed

lemma erf_sq_upper:
  assumes "0 \<le> x"
  shows "(erf x)\<^sup>2 \<le> 1 + 4 / (pi * real (Suc n))"
proof -
  let ?N = "real (Suc n)"
  let ?t = "\<lambda>i. real i / ?N"
  let ?F = "\<lambda>x. (erf x)\<^sup>2 + 4 / pi * ((\<Sum>i<Suc n. exp (- (x\<^sup>2 * (1 + (?t i)\<^sup>2))) / (1 + (?t i)\<^sup>2)) / ?N)"
  have d: "\<exists>y. (?F has_real_derivative y) (at z) \<and> y \<le> 0" if "0 \<le> z" for z
  proof (intro exI conjI)
    show "(?F has_real_derivative 4 / sqrt pi * exp (- (z\<^sup>2))
             * (erf z - 2 / sqrt pi * (z / ?N * (\<Sum>i<Suc n. exp (- ((z * ?t i)\<^sup>2)))))) (at z)"
      by (rule DERIV_erf_sq_plus_samples)
    have "erf z - 2 / sqrt pi * (z / ?N * (\<Sum>i<Suc n. exp (- ((z * ?t i)\<^sup>2)))) \<le> 0"
      using erf_le_left_sum [OF that, of n] by simp
    moreover have "0 \<le> 4 / sqrt pi * exp (- (z\<^sup>2))"
      by simp
    ultimately show "4 / sqrt pi * exp (- (z\<^sup>2))
             * (erf z - 2 / sqrt pi * (z / ?N * (\<Sum>i<Suc n. exp (- ((z * ?t i)\<^sup>2))))) \<le> 0"
      by (rule mult_nonneg_nonpos [rotated])
  qed
  have "?F x \<le> ?F 0"
    by (rule DERIV_nonpos_imp_nonincreasing [OF assms]) (rule d)
  also have "?F 0 = 4 / pi * ((\<Sum>i<Suc n. 1 / (1 + (?t i)\<^sup>2)) / ?N)"
    by (simp add: erf_0)
  also have "\<dots> \<le> 4 / pi * (pi / 4 + 1 / ?N)"
    by (intro mult_left_mono arctan_left_sum) simp
  also have "\<dots> = 1 + 4 / (pi * ?N)"
    by (simp add: distrib_left del: of_nat_Suc)
  finally have "?F x \<le> 1 + 4 / (pi * ?N)" .
  moreover have "0 \<le> 4 / pi * ((\<Sum>i<Suc n. exp (- (x\<^sup>2 * (1 + (?t i)\<^sup>2))) / (1 + (?t i)\<^sup>2)) / ?N)"
    by (intro mult_nonneg_nonneg divide_nonneg_nonneg sum_nonneg add_nonneg_nonneg) simp_all
  ultimately show ?thesis by linarith
qed

lemma erf_sq_lower:
  assumes "0 \<le> x"
  shows "1 - 4 / (pi * real (Suc n)) - 4 / pi * exp (- (x\<^sup>2)) \<le> (erf x)\<^sup>2"
proof -
  let ?N = "real (Suc n)"
  let ?t = "\<lambda>i. real (Suc i) / ?N"
  let ?F = "\<lambda>x. (erf x)\<^sup>2 + 4 / pi * ((\<Sum>i<Suc n. exp (- (x\<^sup>2 * (1 + (?t i)\<^sup>2))) / (1 + (?t i)\<^sup>2)) / ?N)"
  have d: "\<exists>y. (?F has_real_derivative y) (at z) \<and> 0 \<le> y" if "0 \<le> z" for z
  proof (intro exI conjI)
    show "(?F has_real_derivative 4 / sqrt pi * exp (- (z\<^sup>2))
             * (erf z - 2 / sqrt pi * (z / ?N * (\<Sum>i<Suc n. exp (- ((z * ?t i)\<^sup>2)))))) (at z)"
      by (rule DERIV_erf_sq_plus_samples)
    have "0 \<le> erf z - 2 / sqrt pi * (z / ?N * (\<Sum>i<Suc n. exp (- ((z * ?t i)\<^sup>2))))"
      using erf_ge_right_sum [OF that, of n] by simp
    moreover have "0 \<le> 4 / sqrt pi * exp (- (z\<^sup>2))"
      by simp
    ultimately show "0 \<le> 4 / sqrt pi * exp (- (z\<^sup>2))
             * (erf z - 2 / sqrt pi * (z / ?N * (\<Sum>i<Suc n. exp (- ((z * ?t i)\<^sup>2)))))"
      by (rule mult_nonneg_nonneg [rotated])
  qed
  have bound: "exp (- (x\<^sup>2 * (1 + (?t i)\<^sup>2))) / (1 + (?t i)\<^sup>2) \<le> exp (- (x\<^sup>2))" for i
  proof -
    have "exp (- (x\<^sup>2 * (1 + (?t i)\<^sup>2))) \<le> exp (- (x\<^sup>2))"
      by (simp add: mult_nonneg_nonneg algebra_simps)
    moreover have "1 \<le> 1 + (?t i)\<^sup>2" by simp
    ultimately have "exp (- (x\<^sup>2 * (1 + (?t i)\<^sup>2))) / (1 + (?t i)\<^sup>2) \<le> exp (- (x\<^sup>2)) / 1"
      by (intro frac_le) simp_all
    then show ?thesis by simp
  qed
  have "(\<Sum>i<Suc n. exp (- (x\<^sup>2 * (1 + (?t i)\<^sup>2))) / (1 + (?t i)\<^sup>2)) \<le> (\<Sum>i<Suc n. exp (- (x\<^sup>2)))"
    by (rule sum_mono) (rule bound)
  also have "\<dots> = ?N * exp (- (x\<^sup>2))"
    by simp
  finally have "(\<Sum>i<Suc n. exp (- (x\<^sup>2 * (1 + (?t i)\<^sup>2))) / (1 + (?t i)\<^sup>2)) / ?N \<le> exp (- (x\<^sup>2))"
    by (simp add: field_simps del: of_nat_Suc)
  then have up: "4 / pi * ((\<Sum>i<Suc n. exp (- (x\<^sup>2 * (1 + (?t i)\<^sup>2))) / (1 + (?t i)\<^sup>2)) / ?N)
      \<le> 4 / pi * exp (- (x\<^sup>2))"
    by (intro mult_left_mono) simp_all
  have "4 / pi * (pi / 4 - 1 / ?N) \<le> 4 / pi * ((\<Sum>i<Suc n. 1 / (1 + (?t i)\<^sup>2)) / ?N)"
    by (intro mult_left_mono arctan_right_sum) simp
  also have "\<dots> = ?F 0"
    by (simp add: erf_0)
  also have "?F 0 \<le> ?F x"
    by (rule DERIV_nonneg_imp_nondecreasing [OF assms]) (rule d)
  finally have "4 / pi * (pi / 4 - 1 / ?N) \<le> ?F x" .
  moreover have "4 / pi * (pi / 4 - 1 / ?N) = 1 - 4 / (pi * ?N)"
    by (simp add: right_diff_distrib del: of_nat_Suc)
  ultimately show ?thesis using up by linarith
qed

lemma le_of_le_add_inverse:
  fixes a b c :: real
  assumes "\<And>n. a \<le> b + c / real (Suc n)"
  shows "a \<le> b"
proof (rule LIMSEQ_le_const)
  have "(\<lambda>n. b + c * inverse (real (Suc n))) \<longlonglongrightarrow> b + c * 0"
    by (intro tendsto_intros LIMSEQ_inverse_real_of_nat)
  then show "(\<lambda>n. b + c / real (Suc n)) \<longlonglongrightarrow> b"
    by (simp add: divide_inverse)
  show "\<exists>N. \<forall>n\<ge>N. a \<le> b + c / real (Suc n)"
    using assms by blast
qed

lemma erf_le_1_nonneg:
  assumes "0 \<le> x"
  shows "erf x \<le> 1"
proof -
  have "(erf x)\<^sup>2 \<le> 1 + (4 / pi) / real (Suc n)" for n
    using erf_sq_upper [OF assms, of n] by (simp add: field_simps)
  then have "(erf x)\<^sup>2 \<le> 1"
    by (rule le_of_le_add_inverse)
  then have "(erf x)\<^sup>2 \<le> 1\<^sup>2"
    by simp
  then show ?thesis
    by (rule power2_le_imp_le) simp
qed

lemma erf_ge_nonneg:
  assumes "0 \<le> x"
  shows "1 - 4 / pi * exp (- (x\<^sup>2)) \<le> erf x"
proof -
  have "1 - 4 / pi * exp (- (x\<^sup>2)) \<le> (erf x)\<^sup>2 + (4 / pi) / real (Suc n)" for n
    using erf_sq_lower [OF assms, of n] by (simp add: field_simps)
  then have "1 - 4 / pi * exp (- (x\<^sup>2)) \<le> (erf x)\<^sup>2"
    by (rule le_of_le_add_inverse)
  also have "(erf x)\<^sup>2 \<le> erf x"
    using erf_nonneg [OF assms] erf_le_1_nonneg [OF assms]
    by (simp add: power2_eq_square mult_left_le)
  finally show ?thesis .
qed

lemma erf_strict_mono:
  assumes "a < b"
  shows "erf a < erf b"
proof (rule DERIV_pos_imp_increasing [OF assms])
  fix x
  show "\<exists>y. (erf has_real_derivative y) (at x) \<and> 0 < y"
  proof (intro exI conjI)
    show "(erf has_real_derivative 2 / sqrt pi * exp (- (x\<^sup>2))) (at x)"
      by (rule DERIV_erf)
    show "0 < 2 / sqrt pi * exp (- (x\<^sup>2))"
      by simp
  qed
qed

lemma erf_less_1: "erf x < 1"
proof -
  have "erf x < erf (max x 0 + 1)"
    by (rule erf_strict_mono) simp
  also have "\<dots> \<le> 1"
    by (rule erf_le_1_nonneg) simp
  finally show ?thesis .
qed

lemma erf_greater_minus_1: "- 1 < erf x"
  using erf_less_1 [of "- x"] by (simp add: erf_minus)

lemma ndtr_pos: "0 < ndtr x"
  using erf_greater_minus_1 [of "x / sqrt 2"] by (simp add: ndtr_def)

lemma ndtr_less_1: "ndtr x < 1"
  using erf_less_1 [of "x / sqrt 2"] by (simp add: ndtr_def)

lemma ndtr_upper_tail:
  assumes "0 \<le> x"
  shows "1 - 2 / pi * exp (- (x\<^sup>2) / 2) \<le> ndtr x"
proof -
  have "1 - 4 / pi * exp (- ((x / sqrt 2)\<^sup>2)) \<le> erf (x / sqrt 2)"
    by (rule erf_ge_nonneg) (use assms in simp)
  then show ?thesis
    by (simp add: ndtr_def power_divide)
qed

lemma ndtr_lower_tail:
  assumes "x \<le> 0"
  shows "ndtr x \<le> 2 / pi * exp (- (x\<^sup>2) / 2)"
  using ndtr_upper_tail [of "- x"] assms by (simp add: ndtr_minus)

lemma exp_neg_half_square_at_top: "((\<lambda>x::real. exp (- (x\<^sup>2) / 2)) \<longlongrightarrow> 0) at_top"
proof (rule tendsto_sandwich)
  show "\<forall>\<^sub>F x::real in at_top. 0 \<le> exp (- (x\<^sup>2) / 2)"
    by simp
  show "\<forall>\<^sub>F x::real in at_top. exp (- (x\<^sup>2) / 2) \<le> exp (- x)"
    using eventually_ge_at_top [of 2]
  proof eventually_elim
    case (elim x)
    then have "x * 2 \<le> x * x" by (intro mult_left_mono) simp_all
    then show ?case by (simp add: power2_eq_square)
  qed
  show "((\<lambda>x::real. 0) \<longlongrightarrow> 0) at_top"
    by simp
  show "((\<lambda>x::real. exp (- x)) \<longlongrightarrow> 0) at_top"
    by (rule filterlim_compose [OF exp_at_bot filterlim_uminus_at_bot_at_top])
qed

lemma ndtr_at_top: "(ndtr \<longlongrightarrow> 1) at_top"
proof (rule tendsto_sandwich)
  show "\<forall>\<^sub>F x in at_top. 1 - 2 / pi * exp (- (x\<^sup>2) / 2) \<le> ndtr x"
    using eventually_ge_at_top [of 0] by eventually_elim (rule ndtr_upper_tail)
  show "\<forall>\<^sub>F x in at_top. ndtr x \<le> 1"
    using ndtr_less_1 by (simp add: less_imp_le)
  show "((\<lambda>x::real. 1 - 2 / pi * exp (- (x\<^sup>2) / 2)) \<longlongrightarrow> 1) at_top"
    using tendsto_diff [OF tendsto_const tendsto_mult_left [OF exp_neg_half_square_at_top], of 1 "2 / pi"]
    by simp
  show "((\<lambda>x::real. 1) \<longlongrightarrow> 1) at_top"
    by simp
qed

lemma ndtr_at_bot: "(ndtr \<longlongrightarrow> 0) at_bot"
proof -
  have "((\<lambda>x. 1 - ndtr (- x)) \<longlongrightarrow> 1 - 1) at_bot"
    by (intro tendsto_diff tendsto_const filterlim_compose [OF ndtr_at_top filterlim_uminus_at_top_at_bot])
  then show ?thesis
    by (simp add: ndtr_minus)
qed


section \<open>Consistency of the implementations\<close>

text \<open>
  Claim C6: for every valid input (\<open>S > 0\<close>, \<open>K > 0\<close>, \<open>T > 0\<close>, \<open>sigma > 0\<close>, \<open>r\<close> real) the
  dividend-paying implementation called with \<open>q = 0\<close> returns the value of the non-dividend
  implementation.
\<close>

theorem put_option_price_div_q0:
  assumes "0 < S" "0 < K" "0 < T" "0 < sigma"
  shows "put_option_price_div S K T r sigma 0 = put_option_price S K T r sigma"
  by (simp add: put_option_price_div_def put_option_price_def)

theorem put_option_price_div_q0_witness:
  "(0::real) < 100 \<and> (0::real) < 100 \<and> (0::real) < 1 \<and> (0::real) < 2 / 10 \<and>
   put_option_price_div 100 100 1 (5 / 100) (2 / 10) 0 = put_option_price 100 100 1 (5 / 100) (2 / 10)"
  using put_option_price_div_q0 [of 100 100 1 "2 / 10" "5 / 100"] by simp

text \<open>
  Claim C10: for every valid input the numpy/scipy implementations and the sympy
  implementations are the same real-valued functions, without and with dividends.
\<close>

theorem numpy_sympy_agree:
  assumes "0 < S" "0 < K" "0 < T" "0 < sigma"
  shows "put_option_price S K T r sigma = put_option_price_sym S K T r sigma \<and>
         put_option_price_div S K T r sigma q = put_option_price_div_sym S K T r sigma q"
  by (simp add: put_option_price_def put_option_price_sym_def put_option_price_div_def
      put_option_price_div_sym_def norm_cdf_std Normal_cdf_std)

theorem numpy_sympy_agree_witness:
  "(0::real) < 50 \<and> (0::real) < 60 \<and> (0::real) < 1 / 2 \<and> (0::real) < 1 / 4 \<and>
   put_option_price 50 60 (1 / 2) (3 / 100) (1 / 4) = put_option_price_sym 50 60 (1 / 2) (3 / 100) (1 / 4) \<and>
   put_option_price_div 50 60 (1 / 2) (3 / 100) (1 / 4) (2 / 100) =
     put_option_price_div_sym 50 60 (1 / 2) (3 / 100) (1 / 4) (2 / 100)"
  using numpy_sympy_agree [of 50 60 "1 / 2" "1 / 4" "3 / 100" "2 / 100"] by simp

section \<open>Parity and the dividend yield\<close>

lemma spec_d1_discounted:
  assumes "0 < S" "0 < K"
  shows "spec_d1 S K T r sigma q = bs_d1 (S * exp (- q * T)) K T r sigma"
proof -
  have "ln (S * exp (- q * T) / K) = ln (S / K) - q * T"
    using assms by (simp add: ln_mult ln_div)
  then show ?thesis
    by (simp add: spec_d1_def bs_d1_def algebra_simps)
qed

lemma spec_put_price_discounted:
  assumes "0 < S" "0 < K" "0 < T" "0 < sigma"
  shows "spec_put_price S K T r sigma q = put_option_price (S * exp (- q * T)) K T r sigma"
  unfolding put_option_price_alt discounted_put_def spec_put_price_def spec_d2_def
    bs_d2_eq [OF assms(3,4)] spec_d1_discounted [OF assms(1,2)] ..

lemma ndtr_le_linear:
  assumes "0 \<le> x"
  shows "ndtr x \<le> 1 / 2 + x / 2"
proof -
  have "2 \<le> sqrt (2 * pi)"
    using pi_ge_two real_le_rsqrt [of 2 "2 * pi"] by simp
  have d: "\<exists>y. ((\<lambda>x. x / 2 - ndtr x) has_real_derivative y) (at z) \<and> 0 \<le> y" for z
  proof (intro exI conjI)
    show "((\<lambda>x. x / 2 - ndtr x) has_real_derivative 1 / 2 - exp (- (z\<^sup>2) / 2) / sqrt (2 * pi)) (at z)"
      by (rule DERIV_diff [OF _ DERIV_ndtr]) (use DERIV_cdivide [OF DERIV_ident, of 2 z] in simp)
    have "exp (- (z\<^sup>2) / 2) \<le> 1" by simp
    then have "exp (- (z\<^sup>2) / 2) / sqrt (2 * pi) \<le> 1 / 2"
      using \<open>2 \<le> sqrt (2 * pi)\<close> by (intro frac_le) auto
    then show "0 \<le> 1 / 2 - exp (- (z\<^sup>2) / 2) / sqrt (2 * pi)" by simp
  qed
  have "0 / 2 - ndtr 0 \<le> x / 2 - ndtr x"
    by (rule DERIV_nonneg_imp_nondecreasing [OF assms]) (rule d)
  then show ?thesis by (simp add: ndtr_0)
qed



text \<open>
  Claim C1 says that \<^const>\<open>put_option_price_div\<close> returns the value of the specification's
  formula, in which the dividend yield enters \<open>d1\<close> and \<open>d2\<close>. The code leaves \<open>q\<close> out of
  \<open>d1\<close> and \<open>d2\<close>: at \<open>S = 50\<close>, \<open>K = 60\<close>, \<open>T = 0.5\<close>, \<open>r = 0.03\<close>, \<open>sigma = 0.25\<close>,
  \<open>q = 0.02\<close> the value it returns is strictly below the value of the specification's formula.
\<close>

theorem put_option_price_div_drift_mismatch:
  "put_option_price_div 50 60 (1 / 2) (3 / 100) (1 / 4) (2 / 100)
     < spec_put_price 50 60 (1 / 2) (3 / 100) (1 / 4) (2 / 100)"
proof -
  have "spec_put_price 50 60 (1 / 2) (3 / 100) (1 / 4) (2 / 100)
      = put_option_price (50 * exp (- (2 / 100) * (1 / 2))) 60 (1 / 2) (3 / 100) (1 / 4)"
    by (rule spec_put_price_discounted) simp_all
  moreover have "put_option_price_div 50 60 (1 / 2) (3 / 100) (1 / 4) (2 / 100)
      < put_option_price (50 * exp (- (2 / 100) * (1 / 2))) 60 (1 / 2) (3 / 100) (1 / 4)"
    by (rule div_underprices) simp_all
  ultimately show ?thesis by simp
qed

text \<open>
  Claim C3 says that the dividend-adjusted price equals the non-dividend price evaluated on
  the discounted spot \<open>S * exp (- q * T)\<close>, in particular at \<open>S = 50\<close>, \<open>K = 60\<close>, \<open>T = 0.5\<close>,
  \<open>r = 0.03\<close>, \<open>sigma = 0.25\<close>, \<open>q = 0.02\<close>. At that input the two values returned by the code
  differ.
\<close>

theorem put_option_price_div_discounted_spot_mismatch:
  "put_option_price_div 50 60 (1 / 2) (3 / 100) (1 / 4) (2 / 100)
     \<noteq> put_option_price (50 * exp (- (2 / 100) * (1 / 2))) 60 (1 / 2) (3 / 100) (1 / 4)"
proof -
  have "put_option_price_div 50 60 (1 / 2) (3 / 100) (1 / 4) (2 / 100)
      < put_option_price (50 * exp (- (2 / 100) * (1 / 2))) 60 (1 / 2) (3 / 100) (1 / 4)"
    by (rule div_underprices) simp_all
  then show ?thesis by simp
qed

text \<open>
  Claim C4 says that the returned put price is non-negative for every valid input. With a
  negative dividend yield the value returned by \<^const>\<open>put_option_price_div\<close> can be negative:
  it is at \<open>S = 100\<close>, \<open>K = 100\<close>, \<open>T = 1\<close>, \<open>r = 0\<close>, \<open>sigma = 0.2\<close>, \<open>q = - 0.25\<close>.
\<close>

theorem put_option_price_div_negative:
  "put_option_price_div 100 100 1 0 (2 / 10) (- (1 / 4)) < 0"
proof -
  have d1: "bs_d1 100 100 1 0 (2 / 10) = 1 / 10"
    by (simp add: bs_d1_def power2_eq_square)
  have d2: "bs_d2 100 100 1 0 (2 / 10) = - (1 / 10)"
    by (simp add: bs_d2_def power2_eq_square)
  have n: "ndtr (1 / 10) \<le> 11 / 20"
    using ndtr_le_linear [of "1 / 10"] by simp
  have e: "5 / 4 \<le> exp (1 / 4 :: real)"
    using exp_ge_add_one_self [of "1 / 4"] by simp
  have "put_option_price_div 100 100 1 0 (2 / 10) (- (1 / 4))
      = 100 * ndtr (1 / 10) - 100 * exp (1 / 4) * (1 - ndtr (1 / 10))"
    unfolding put_option_price_div_alt discounted_put_def d1 d2
    by (simp add: ndtr_minus)
  also have "\<dots> = 100 * (ndtr (1 / 10) - exp (1 / 4) * (1 - ndtr (1 / 10)))"
    by (simp add: algebra_simps)
  also have "exp (1 / 4) * (1 - ndtr (1 / 10)) \<ge> 5 / 4 * (1 - 11 / 20)"
    using n e by (intro mult_mono) auto
  then have "100 * (ndtr (1 / 10) - exp (1 / 4) * (1 - ndtr (1 / 10))) \<le> 100 * (11 / 20 - 5 / 4 * (1 - 11 / 20))"
    using n by (intro mult_left_mono diff_mono) auto
  also have "\<dots> < 0" by simp
  finally show ?thesis .
qed

section \<open>Monotonicity in the strike\<close>

lemma DERIV_bs_d1_strike:
  assumes "0 < S" "0 < K" "0 < T" "0 < sigma"
  shows "((\<lambda>K. bs_d1 S K T r sigma) has_real_derivative - (1 / (K * (sigma * sqrt T)))) (at K)"
  unfolding bs_d1_def using assms
  by (auto intro!: derivative_eq_intros simp: field_simps)

lemma DERIV_bs_d2_strike:
  assumes "0 < S" "0 < K" "0 < T" "0 < sigma"
  shows "((\<lambda>K. bs_d2 S K T r sigma) has_real_derivative - (1 / (K * (sigma * sqrt T)))) (at K)"
  unfolding bs_d2_def using assms
  by (auto intro!: derivative_eq_intros simp: field_simps)

lemma DERIV_put_option_price_strike:
  assumes "0 < S" "0 < K" "0 < T" "0 < sigma"
  shows "((\<lambda>K. put_option_price S K T r sigma) has_real_derivative
           exp (- r * T) * ndtr (- bs_d2 S K T r sigma)) (at K)"
proof -
  let ?a = "sigma * sqrt T"
  let ?p1 = "exp (- (bs_d1 S K T r sigma)\<^sup>2 / 2)"
  let ?p2 = "exp (- (bs_d2 S K T r sigma)\<^sup>2 / 2)"
  have a: "?a \<noteq> 0" using assms by simp
  have 0: "((\<lambda>K. K * exp (- r * T)) has_real_derivative exp (- r * T)) (at K)"
    using DERIV_cmult_right [OF DERIV_ident, of "exp (- r * T)" K] by simp
  have 1: "((\<lambda>K. K * exp (- r * T) * ndtr (- bs_d2 S K T r sigma)) has_real_derivative
           K * exp (- r * T) * - (?p2 / sqrt (2 * pi) * - (1 / (K * ?a)))
           + exp (- r * T) * ndtr (- bs_d2 S K T r sigma)) (at K)"
    by (rule DERIV_mult' [OF 0 DERIV_ndtr_neg [OF DERIV_bs_d2_strike [OF assms]]])
  have 2: "((\<lambda>K. S * ndtr (- bs_d1 S K T r sigma)) has_real_derivative
           S * - (?p1 / sqrt (2 * pi) * - (1 / (K * ?a)))) (at K)"
    by (rule DERIV_cmult [OF DERIV_ndtr_neg [OF DERIV_bs_d1_strike [OF assms]]])
  have 3: "((\<lambda>K. K * exp (- r * T) * ndtr (- bs_d2 S K T r sigma) - S * ndtr (- bs_d1 S K T r sigma))
      has_real_derivative
           K * exp (- r * T) * - (?p2 / sqrt (2 * pi) * - (1 / (K * ?a)))
           + exp (- r * T) * ndtr (- bs_d2 S K T r sigma)
           - S * - (?p1 / sqrt (2 * pi) * - (1 / (K * ?a)))) (at K)"
    by (rule DERIV_diff [OF 1 2])
  have "K * exp (- r * T) * - (?p2 / sqrt (2 * pi) * - (1 / (K * ?a)))
           + exp (- r * T) * ndtr (- bs_d2 S K T r sigma)
           - S * - (?p1 / sqrt (2 * pi) * - (1 / (K * ?a)))
      = exp (- r * T) * ndtr (- bs_d2 S K T r sigma)
        + (K * exp (- r * T) * ?p2 - S * ?p1) / (sqrt (2 * pi) * (K * ?a))"
    by (simp add: divide_simps) (simp add: algebra_simps)
  also have "\<dots> = exp (- r * T) * ndtr (- bs_d2 S K T r sigma)"
    unfolding density_identity [OF assms] by simp
  finally have eq: "K * exp (- r * T) * - (?p2 / sqrt (2 * pi) * - (1 / (K * ?a)))
           + exp (- r * T) * ndtr (- bs_d2 S K T r sigma)
           - S * - (?p1 / sqrt (2 * pi) * - (1 / (K * ?a)))
      = exp (- r * T) * ndtr (- bs_d2 S K T r sigma)" .
  show ?thesis
    unfolding put_option_price_alt discounted_put_def using 3 unfolding eq .
qed

lemma put_option_price_strike_increasing:
  assumes "0 < S" "0 < T" "0 < sigma" "0 < K1" "K1 < K2"
  shows "put_option_price S K1 T r sigma < put_option_price S K2 T r sigma"
proof (rule DERIV_pos_imp_increasing [OF assms(5)])
  fix K
  assume "K1 \<le> K" "K \<le> K2"
  then have K: "0 < K" using assms by linarith
  show "\<exists>y. ((\<lambda>K. put_option_price S K T r sigma) has_real_derivative y) (at K) \<and> 0 < y"
  proof (intro exI conjI)
    show "((\<lambda>K. put_option_price S K T r sigma) has_real_derivative
            exp (- r * T) * ndtr (- bs_d2 S K T r sigma)) (at K)"
      by (rule DERIV_put_option_price_strike [OF assms(1) K assms(2,3)])
    show "0 < exp (- r * T) * ndtr (- bs_d2 S K T r sigma)"
      by (intro mult_pos_pos ndtr_pos) simp
  qed
qed

section \<open>The price at expiry\<close>










lemma ndtr_neg_at_top:
  assumes "LIM T F. d T :> at_top"
  shows "((\<lambda>T. ndtr (- d T)) \<longlongrightarrow> 0) F"
  by (rule filterlim_compose [OF ndtr_at_bot]) (use assms in \<open>simp add: filterlim_uminus_at_top\<close>)





section \<open>A numerical example\<close>

text \<open>
  Enclosures of \<open>pi\<close>, \<open>sqrt (2 * pi)\<close>, \<open>exp (- 1 / 20)\<close> and of the distribution function at
  \<open>3 / 20\<close> and \<open>7 / 20\<close> by rational numbers, from polynomial bounds on the derivatives.
\<close>

lemma deriv_le_from_zero:
  fixes f g :: "real \<Rightarrow> real"
  assumes "0 \<le> x"
    and f: "\<And>z. 0 \<le> z \<Longrightarrow> (f has_real_derivative f' z) (at z)"
    and g: "\<And>z. 0 \<le> z \<Longrightarrow> (g has_real_derivative g' z) (at z)"
    and le: "\<And>z. 0 \<le> z \<Longrightarrow> f' z \<le> g' z"
    and eq: "f 0 = g 0"
  shows "f x \<le> g x"
proof -
  have "g 0 - f 0 \<le> g x - f x"
  proof (rule DERIV_nonneg_imp_nondecreasing [OF assms(1)])
    fix z :: real
    assume "0 \<le> z" "z \<le> x"
    show "\<exists>y. ((\<lambda>x. g x - f x) has_real_derivative y) (at z) \<and> 0 \<le> y"
    proof (intro exI conjI)
      show "((\<lambda>x. g x - f x) has_real_derivative g' z - f' z) (at z)"
        by (rule DERIV_diff [OF g [OF \<open>0 \<le> z\<close>] f [OF \<open>0 \<le> z\<close>]])
      show "0 \<le> g' z - f' z"
        using le [OF \<open>0 \<le> z\<close>] by simp
    qed
  qed
  then show ?thesis using eq by simp
qed

lemma exp_neg_upper_quadratic:
  fixes u :: real
  assumes "0 \<le> u"
  shows "exp (- u) \<le> 1 - u + u\<^sup>2 / 2"
proof (rule deriv_le_from_zero [OF assms, where f' = "\<lambda>z. - exp (- z)" and g' = "\<lambda>z. - 1 + z"])
  fix z :: real
  show "((\<lambda>u. exp (- u)) has_real_derivative - exp (- z)) (at z)"
    by (auto intro!: derivative_eq_intros)
  show "((\<lambda>u. 1 - u + u\<^sup>2 / 2) has_real_derivative - 1 + z) (at z)"
    by (auto intro!: derivative_eq_intros)
  show "- exp (- z) \<le> - 1 + z"
    using exp_ge_add_one_self [of "- z"] by simp
qed simp

lemma DERIV_half_plus_scaled:
  fixes p :: "real \<Rightarrow> real"
  assumes "(p has_real_derivative D) (at z)"
  shows "((\<lambda>x. 1 / 2 + p x / c) has_real_derivative D / c) (at z)"
  using DERIV_add [OF DERIV_const DERIV_cdivide [OF assms], of "1 / 2" c] by simp

lemma ndtr_lower_cubic:
  assumes "0 \<le> x"
  shows "1 / 2 + (x - x ^ 3 / 6) / sqrt (2 * pi) \<le> ndtr x"
proof (rule deriv_le_from_zero [OF assms, where f' = "\<lambda>z. (1 - z\<^sup>2 / 2) / sqrt (2 * pi)"
      and g' = "\<lambda>z. exp (- (z\<^sup>2) / 2) / sqrt (2 * pi)"])
  fix z :: real
  show "((\<lambda>x. 1 / 2 + (x - x ^ 3 / 6) / sqrt (2 * pi)) has_real_derivative (1 - z\<^sup>2 / 2) / sqrt (2 * pi)) (at z)"
    by (rule DERIV_half_plus_scaled) (auto intro!: derivative_eq_intros)
  show "(ndtr has_real_derivative exp (- (z\<^sup>2) / 2) / sqrt (2 * pi)) (at z)"
    by (rule DERIV_ndtr)
  have "1 + - (z\<^sup>2 / 2) \<le> exp (- (z\<^sup>2 / 2))"
    by (rule exp_ge_add_one_self)
  then show "(1 - z\<^sup>2 / 2) / sqrt (2 * pi) \<le> exp (- (z\<^sup>2) / 2) / sqrt (2 * pi)"
    by (intro divide_right_mono) simp_all
qed (simp add: ndtr_0)

lemma ndtr_upper_quintic:
  assumes "0 \<le> x"
  shows "ndtr x \<le> 1 / 2 + (x - x ^ 3 / 6 + x ^ 5 / 40) / sqrt (2 * pi)"
proof (rule deriv_le_from_zero [OF assms, where g' = "\<lambda>z. (1 - z\<^sup>2 / 2 + z ^ 4 / 8) / sqrt (2 * pi)"
      and f' = "\<lambda>z. exp (- (z\<^sup>2) / 2) / sqrt (2 * pi)"])
  fix z :: real
  show "((\<lambda>x. 1 / 2 + (x - x ^ 3 / 6 + x ^ 5 / 40) / sqrt (2 * pi)) has_real_derivative
          (1 - z\<^sup>2 / 2 + z ^ 4 / 8) / sqrt (2 * pi)) (at z)"
    by (rule DERIV_half_plus_scaled) (auto intro!: derivative_eq_intros)
  show "(ndtr has_real_derivative exp (- (z\<^sup>2) / 2) / sqrt (2 * pi)) (at z)"
    by (rule DERIV_ndtr)
  have "exp (- (z\<^sup>2 / 2)) \<le> 1 - z\<^sup>2 / 2 + (z\<^sup>2 / 2)\<^sup>2 / 2"
    by (rule exp_neg_upper_quadratic) simp
  also have "(z\<^sup>2 / 2)\<^sup>2 / 2 = z ^ 4 / 8"
    by (simp add: power2_eq_square power4_eq_xxxx)
  finally show "exp (- (z\<^sup>2) / 2) / sqrt (2 * pi) \<le> (1 - z\<^sup>2 / 2 + z ^ 4 / 8) / sqrt (2 * pi)"
    by (intro divide_right_mono) simp_all
qed (simp add: ndtr_0)

lemma arctan_lower_septic:
  assumes "0 \<le> x"
  shows "x - x ^ 3 / 3 + x ^ 5 / 5 - x ^ 7 / 7 \<le> arctan x"
proof (rule deriv_le_from_zero [OF assms, where f' = "\<lambda>z. 1 - z\<^sup>2 + z ^ 4 - z ^ 6"
      and g' = "\<lambda>z. inverse (1 + z\<^sup>2)"])
  fix z :: real
  show "((\<lambda>x. x - x ^ 3 / 3 + x ^ 5 / 5 - x ^ 7 / 7) has_real_derivative 1 - z\<^sup>2 + z ^ 4 - z ^ 6) (at z)"
    by (auto intro!: derivative_eq_intros simp: field_simps)
  show "(arctan has_real_derivative inverse (1 + z\<^sup>2)) (at z)"
    by (rule DERIV_arctan)
  have pos: "0 < 1 + z\<^sup>2"
    by (simp add: add_pos_nonneg)
  have "(1 - z\<^sup>2 + z ^ 4 - z ^ 6) * (1 + z\<^sup>2) = 1 - z ^ 8"
    by (simp add: algebra_simps power2_eq_square power_numeral_reduce)
  also have "\<dots> \<le> 1"
    by simp
  finally have "1 - z\<^sup>2 + z ^ 4 - z ^ 6 \<le> 1 / (1 + z\<^sup>2)"
    using pos by (simp add: pos_le_divide_eq)
  then show "1 - z\<^sup>2 + z ^ 4 - z ^ 6 \<le> inverse (1 + z\<^sup>2)"
    by (simp add: inverse_eq_divide)
qed simp

lemma arctan_upper_quintic:
  assumes "0 \<le> x"
  shows "arctan x \<le> x - x ^ 3 / 3 + x ^ 5 / 5"
proof (rule deriv_le_from_zero [OF assms, where g' = "\<lambda>z. 1 - z\<^sup>2 + z ^ 4"
      and f' = "\<lambda>z. inverse (1 + z\<^sup>2)"])
  fix z :: real
  show "((\<lambda>x. x - x ^ 3 / 3 + x ^ 5 / 5) has_real_derivative 1 - z\<^sup>2 + z ^ 4) (at z)"
    by (auto intro!: derivative_eq_intros simp: field_simps)
  show "(arctan has_real_derivative inverse (1 + z\<^sup>2)) (at z)"
    by (rule DERIV_arctan)
  have pos: "0 < 1 + z\<^sup>2"
    by (simp add: add_pos_nonneg)
  have "1 \<le> 1 + z ^ 6"
    by simp
  also have "\<dots> = (1 - z\<^sup>2 + z ^ 4) * (1 + z\<^sup>2)"
    by (simp add: algebra_simps power2_eq_square power_numeral_reduce)
  finally have "1 / (1 + z\<^sup>2) \<le> 1 - z\<^sup>2 + z ^ 4"
    using pos by (simp add: pos_divide_le_eq)
  then show "inverse (1 + z\<^sup>2) \<le> 1 - z\<^sup>2 + z ^ 4"
    by (simp add: inverse_eq_divide)
qed simp

lemma pi_bounds: "31415 / 10000 < pi" "pi < 3142 / 1000"
proof -
  have l5: "(1 / 5) - (1 / 5) ^ 3 / 3 + (1 / 5) ^ 5 / 5 - (1 / 5) ^ 7 / 7 \<le> arctan (1 / 5)"
    by (rule arctan_lower_septic) simp
  have u5: "arctan (1 / 5) \<le> (1 / 5) - (1 / 5) ^ 3 / 3 + (1 / 5) ^ 5 / 5"
    by (rule arctan_upper_quintic) simp
  have l239: "(1 / 239) - (1 / 239) ^ 3 / 3 + (1 / 239) ^ 5 / 5 - (1 / 239) ^ 7 / 7 \<le> arctan (1 / 239)"
    by (rule arctan_lower_septic) simp
  have u239: "arctan (1 / 239) \<le> (1 / 239) - (1 / 239) ^ 3 / 3 + (1 / 239) ^ 5 / 5"
    by (rule arctan_upper_quintic) simp
  have "197395 / 1000000 \<le> (1 / 5 :: real) - (1 / 5) ^ 3 / 3 + (1 / 5) ^ 5 / 5 - (1 / 5) ^ 7 / 7"
    by (simp add: power_divide)
  then have l5': "197395 / 1000000 \<le> arctan (1 / 5)"
    using l5 by (rule order_trans)
  have "(1 / 5 :: real) - (1 / 5) ^ 3 / 3 + (1 / 5) ^ 5 / 5 \<le> 197398 / 1000000"
    by (simp add: power_divide)
  with u5 have u5': "arctan (1 / 5) \<le> 197398 / 1000000"
    by (rule order_trans)
  have "4184 / 1000000 \<le> (1 / 239 :: real) - (1 / 239) ^ 3 / 3 + (1 / 239) ^ 5 / 5 - (1 / 239) ^ 7 / 7"
    by (simp add: power_divide)
  then have l239': "4184 / 1000000 \<le> arctan (1 / 239)"
    using l239 by (rule order_trans)
  have "(1 / 239 :: real) - (1 / 239) ^ 3 / 3 + (1 / 239) ^ 5 / 5 \<le> 4185 / 1000000"
    by (simp add: power_divide)
  with u239 have u239': "arctan (1 / 239) \<le> 4185 / 1000000"
    by (rule order_trans)
  show "31415 / 10000 < pi"
    using machin l5' u239' by linarith
  show "pi < 3142 / 1000"
    using machin u5' l239' by linarith
qed

lemma sqrt_two_pi_bounds: "250659 / 100000 \<le> sqrt (2 * pi)" "sqrt (2 * pi) \<le> 25068 / 10000"
proof -
  have "(250659 / 100000)\<^sup>2 \<le> 2 * pi"
    using pi_bounds(1) by (simp add: power2_eq_square)
  then show "250659 / 100000 \<le> sqrt (2 * pi)"
    by (rule real_le_rsqrt)
  have "2 * pi \<le> (25068 / 10000)\<^sup>2"
    using pi_bounds(2) by (simp add: power2_eq_square)
  then show "sqrt (2 * pi) \<le> 25068 / 10000"
    using real_le_lsqrt [of "25068 / 10000" "2 * pi"] by simp
qed

lemma exp_minus_twentieth_bounds:
  "95122 / 100000 \<le> exp (- (1 / 20) :: real)" "exp (- (1 / 20) :: real) \<le> 95123 / 100000"
proof -
  obtain t :: real where t: "\<bar>t\<bar> \<le> \<bar>- (1 / 20)\<bar>"
    "exp (- (1 / 20)) = (\<Sum>m<4. ((- (1 / 20)) ^ m) / fact m) + (exp t / fact 4) * (- (1 / 20)) ^ 4"
    using Maclaurin_exp_le [of "- (1 / 20)" 4] by blast
  have s: "(\<Sum>m<4. ((- (1 / 20 :: real)) ^ m) / fact m) = 1 - 1 / 20 + 1 / 800 - 1 / 48000"
    by (simp add: eval_nat_numeral fact_numeral)
  define w where "w = exp t"
  have "t \<le> 1" using t(1) by simp
  then have "exp t \<le> exp 1" by simp
  also have "exp (1::real) \<le> 3"
    using exp_le by simp
  finally have w: "0 \<le> w" "w \<le> 3"
    by (simp_all add: w_def)
  have r: "(exp t / fact 4) * (- (1 / 20)) ^ 4 = w / 3840000"
    by (simp add: eval_nat_numeral fact_numeral w_def)
  show "95122 / 100000 \<le> exp (- (1 / 20) :: real)" "exp (- (1 / 20) :: real) \<le> 95123 / 100000"
    unfolding t(2) s r using w by simp_all
qed

lemma quotient_lower:
  fixes n c cu q :: real
  assumes "0 \<le> q" "0 < c" "c \<le> cu" "q * cu \<le> n"
  shows "q \<le> n / c"
proof -
  have "q * c \<le> q * cu"
    using assms(1,3) by (rule mult_left_mono [rotated])
  then have "q * c \<le> n"
    using assms(4) by linarith
  then show ?thesis
    using assms(2) by (simp add: pos_le_divide_eq)
qed

lemma quotient_upper:
  fixes n c cl q :: real
  assumes "0 \<le> q" "0 < cl" "cl \<le> c" "n \<le> q * cl"
  shows "n / c \<le> q"
proof -
  have "q * cl \<le> q * c"
    using assms(1,3) by (rule mult_left_mono [rotated])
  then have "n \<le> q * c"
    using assms(4) by linarith
  moreover have "0 < c"
    using assms(2,3) by linarith
  ultimately show ?thesis
    by (simp add: pos_divide_le_eq)
qed

lemma ndtr_3_20_bounds: "5596 / 10000 \<le> ndtr (3 / 20)" "ndtr (3 / 20) \<le> 55964 / 100000"
proof -
  have c: "0 < sqrt (2 * pi)" by simp
  have "596 / 10000 \<le> ((3 / 20 :: real) - (3 / 20) ^ 3 / 6) / sqrt (2 * pi)"
    by (rule quotient_lower [OF _ c sqrt_two_pi_bounds(2)]) (simp_all add: power_divide)
  then show "5596 / 10000 \<le> ndtr (3 / 20)"
    using ndtr_lower_cubic [of "3 / 20"] by linarith
  have "((3 / 20 :: real) - (3 / 20) ^ 3 / 6 + (3 / 20) ^ 5 / 40) / sqrt (2 * pi) \<le> 5964 / 100000"
    by (rule quotient_upper [OF _ _ sqrt_two_pi_bounds(1)]) (simp_all add: power_divide)
  then show "ndtr (3 / 20) \<le> 55964 / 100000"
    using ndtr_upper_quintic [of "3 / 20"] by linarith
qed

lemma ndtr_7_20_bounds: "63676 / 100000 \<le> ndtr (7 / 20)" "ndtr (7 / 20) \<le> 63684 / 100000"
proof -
  have c: "0 < sqrt (2 * pi)" by simp
  have "13676 / 100000 \<le> ((7 / 20 :: real) - (7 / 20) ^ 3 / 6) / sqrt (2 * pi)"
    by (rule quotient_lower [OF _ c sqrt_two_pi_bounds(2)]) (simp_all add: power_divide)
  then show "63676 / 100000 \<le> ndtr (7 / 20)"
    using ndtr_lower_cubic [of "7 / 20"] by linarith
  have "((7 / 20 :: real) - (7 / 20) ^ 3 / 6 + (7 / 20) ^ 5 / 40) / sqrt (2 * pi) \<le> 13684 / 100000"
    by (rule quotient_upper [OF _ _ sqrt_two_pi_bounds(1)]) (simp_all add: power_divide)
  then show "ndtr (7 / 20) \<le> 63684 / 100000"
    using ndtr_upper_quintic [of "7 / 20"] by linarith
qed

lemma put_option_price_example_value:
  "put_option_price 100 100 1 (5 / 100) (2 / 10)
     = 100 * (exp (- (1 / 20)) * (1 - ndtr (3 / 20))) - 100 * (1 - ndtr (7 / 20))"
proof -
  have d1: "bs_d1 100 100 1 (5 / 100) (2 / 10) = 7 / 20"
    by (simp add: bs_d1_def power2_eq_square)
  have d2: "bs_d2 100 100 1 (5 / 100) (2 / 10) = 3 / 20"
    by (simp add: bs_d2_def power2_eq_square)
  show ?thesis
    unfolding put_option_price_alt discounted_put_def d1 d2 ndtr_minus by simp
qed

text \<open>
  Claim C9: at \<open>S = 100\<close>, \<open>K = 100\<close>, \<open>T = 1\<close>, \<open>r = 0.05\<close>, \<open>sigma = 0.2\<close> the put price
  returned by \<^const>\<open>put_option_price\<close> differs from \<open>5.57\<close> by at most \<open>0.01\<close>.
\<close>

theorem put_option_price_example:
  "\<bar>put_option_price 100 100 1 (5 / 100) (2 / 10) - 557 / 100\<bar> \<le> 1 / 100"
proof -
  define E where "E = exp (- (1 / 20) :: real)"
  define A where "A = ndtr (3 / 20)"
  define B where "B = ndtr (7 / 20)"
  have E: "95122 / 100000 \<le> E" "E \<le> 95123 / 100000"
    using exp_minus_twentieth_bounds by (simp_all add: E_def)
  have A: "5596 / 10000 \<le> A" "A \<le> 55964 / 100000"
    using ndtr_3_20_bounds by (simp_all add: A_def)
  have B: "63676 / 100000 \<le> B" "B \<le> 63684 / 100000"
    using ndtr_7_20_bounds by (simp_all add: B_def)
  define X where "X = E * (1 - A)"
  have "X \<le> 95123 / 100000 * (1 - 5596 / 10000)"
    unfolding X_def using E A by (intro mult_mono) simp_all
  then have up: "X \<le> 41893 / 100000"
    by simp
  have "95122 / 100000 * (1 - 55964 / 100000) \<le> X"
    unfolding X_def using E A by (intro mult_mono) simp_all
  then have lo: "41887 / 100000 \<le> X"
    by simp
  define P where "P = put_option_price 100 100 1 (5 / 100) (2 / 10)"
  have "P = 100 * X - 100 * (1 - B)"
    unfolding P_def put_option_price_example_value E_def A_def B_def X_def ..
  then have "P - 557 / 100 \<le> 1 / 100" "- (P - 557 / 100) \<le> 1 / 100"
    using up lo B by simp_all
  then have "\<bar>P - 557 / 100\<bar> \<le> 1 / 100"
    by (rule abs_leI)
  then show ?thesis
    unfolding P_def .
qed

section \<open>The exponent range of binary64\<close>

lemma b64_tiny_pos: "0 < b64_tiny"
  by (simp add: b64_tiny_def)

lemma b64_tiny_small: "b64_tiny < 1 / 10 ^ 9"
proof -
  have "(10::real) ^ 9 < 2 ^ 30" by simp
  also have "(2::real) ^ 30 \<le> 2 ^ 1075" by (rule power_increasing) simp_all
  finally show ?thesis
    unfolding b64_tiny_def by (intro divide_strict_left_mono) simp_all
qed

lemma b64_huge_large: "10 ^ 9 < b64_huge"
proof -
  have "(2::real) ^ 1024 = 2 ^ 54 * 2 ^ 970"
    by (simp only: power_add [symmetric]) simp
  then have "b64_huge = (2 ^ 54 - 1) * 2 ^ 970"
    unfolding b64_huge_def by (simp only: left_diff_distrib mult_1)
  moreover have "(1::real) * 2 ^ 30 \<le> (2 ^ 54 - 1) * 2 ^ 970"
    by (intro mult_mono power_increasing) simp_all
  moreover have "(10::real) ^ 9 < 2 ^ 30" by simp
  ultimately show ?thesis by simp
qed

lemma b64_tiny_less_huge: "b64_tiny < b64_huge"
  using b64_tiny_small b64_huge_large by simp

lemma to_b64_moderate:
  assumes "1 / 10 ^ 9 \<le> \<bar>v\<bar>" "\<bar>v\<bar> \<le> 10 ^ 9"
  shows "to_b64 s v = Fin v"
  using assms b64_tiny_small b64_huge_large by (simp add: to_b64_def)

lemma to_b64_zero: "to_b64 s 0 = signed_zero s"
  using b64_huge_large b64_tiny_pos by (simp add: to_b64_def)

lemma to_b64_underflow_pos:
  assumes "0 < v" "v \<le> b64_tiny"
  shows "to_b64 s v = Fin 0"
  using assms b64_tiny_less_huge by (simp add: to_b64_def signed_zero_def)

lemma is_fin_simps [simp]:
  "is_fin (Fin v)" "is_fin NegZero" "\<not> is_fin PInf" "\<not> is_fin NInf" "\<not> is_fin NaN"
  by (simp_all add: is_fin_def)

lemma NaN_absorbing [simp]:
  "fneg NaN = NaN" "fmul NaN y = NaN" "fmul x NaN = NaN" "fdiv NaN y = NaN" "fdiv x NaN = NaN"
  "fadd NaN y = NaN" "fadd x NaN = NaN" "fsub NaN y = NaN" "fsub x NaN = NaN" "norm_cdf_fl NaN = NaN"
  by (simp_all add: fmul_def fdiv_def fadd_def fsub_def norm_cdf_fl_def)

lemma fmul_moderate:
  assumes "1 / 10 ^ 9 \<le> \<bar>a * b\<bar>" "\<bar>a * b\<bar> \<le> 10 ^ 9"
  shows "fmul (Fin a) (Fin b) = Fin (a * b)"
  by (simp add: fmul_def to_b64_moderate [OF assms])

lemma fdiv_moderate:
  assumes "b \<noteq> 0" "1 / 10 ^ 9 \<le> \<bar>a / b\<bar>" "\<bar>a / b\<bar> \<le> 10 ^ 9"
  shows "fdiv (Fin a) (Fin b) = Fin (a / b)"
  using assms(1) by (simp add: fdiv_def to_b64_moderate [OF assms(2,3)])

lemma fadd_moderate:
  assumes "1 / 10 ^ 9 \<le> \<bar>a + b\<bar>" "\<bar>a + b\<bar> \<le> 10 ^ 9"
  shows "fadd (Fin a) (Fin b) = Fin (a + b)"
  by (simp add: fadd_def to_b64_moderate [OF assms])

lemma fsub_moderate:
  assumes "b \<noteq> 0" "1 / 10 ^ 9 \<le> \<bar>a - b\<bar>" "\<bar>a - b\<bar> \<le> 10 ^ 9"
  shows "fsub (Fin a) (Fin b) = Fin (a - b)"
  using assms(1) fadd_moderate [of a "- b"] assms(2,3) by (simp add: fsub_def)

lemma py_arg_moderate:
  assumes "1 / 10 ^ 9 \<le> \<bar>v\<bar>" "\<bar>v\<bar> \<le> 10 ^ 9"
  shows "py_arg v = Fin v"
  unfolding py_arg_def by (rule to_b64_moderate [OF assms])

lemma py_float_moderate:
  assumes "1 / 10 ^ 9 \<le> \<bar>v\<bar>" "\<bar>v\<bar> \<le> 10 ^ 9"
  shows "py_float v = Inr (Fin v)"
  using assms b64_huge_large by (simp add: py_float_def to_b64_moderate [OF assms])

lemma fmul_Fin_zero: "0 \<le> a \<Longrightarrow> fmul (Fin a) (Fin 0) = Fin 0"
  by (simp add: fmul_def to_b64_zero signed_zero_def)

lemma fsub_zero_zero: "fsub (Fin 0) (Fin 0) = Fin 0"
  by (simp add: fsub_def fadd_def to_b64_zero signed_zero_def)

text \<open>
  Far in the lower tail the distribution function underflows to \<open>0.0\<close>; this is shown here
  for arguments from \<open>- 49\<close> downwards.
\<close>

lemma exp_minus_1200_tiny: "exp (- 1200 :: real) \<le> b64_tiny"
proof -
  have "(2::real) ^ 1075 \<le> 2 ^ 1200"
    by (rule power_increasing) simp_all
  also have "\<dots> \<le> exp 1 ^ 1200"
    using exp_ge_add_one_self [of "1::real"] by (intro power_mono) simp_all
  also have "\<dots> = exp (1200 :: real)"
    using exp_of_nat_mult [of 1200 "1::real"] by simp
  finally have "1 / exp (1200 :: real) \<le> 1 / 2 ^ 1075"
    by (intro divide_left_mono) simp_all
  then show ?thesis
    by (simp add: b64_tiny_def exp_minus inverse_eq_divide)
qed

lemma norm_cdf_fl_underflow:
  assumes "49 \<le> d" "d \<le> 10 ^ 9"
  shows "norm_cdf_fl (fneg (Fin d)) = Fin 0"
proof -
  have "49 * 49 \<le> d * d"
    using assms by (intro mult_mono) simp_all
  then have "- (d\<^sup>2) / 2 \<le> - 1200"
    by (simp add: power2_eq_square)
  then have e: "exp (- (d\<^sup>2) / 2) \<le> exp (- 1200)"
    by simp
  have "ndtr (- d) \<le> 2 / pi * exp (- ((- d)\<^sup>2) / 2)"
    by (rule ndtr_lower_tail) (use assms in simp)
  also have "\<dots> = 2 / pi * exp (- (d\<^sup>2) / 2)"
    by simp
  also have "2 / pi \<le> 1"
    using pi_ge_two by simp
  then have "2 / pi * exp (- (d\<^sup>2) / 2) \<le> 1 * exp (- (d\<^sup>2) / 2)"
    by (rule mult_right_mono) simp
  also have "\<dots> \<le> b64_tiny"
    using order_trans [OF e exp_minus_1200_tiny] by (simp only: mult_1)
  finally have "to_b64 False (ndtr (- d)) = Fin 0"
    using ndtr_pos [of "- d"] by (intro to_b64_underflow_pos)
  moreover have "fneg (Fin d) = Fin (- d)"
    using assms by simp
  ultimately show ?thesis
    by (simp add: norm_cdf_fl_def)
qed

lemma np_log_moderate:
  assumes "0 < v" "1 / 10 ^ 9 \<le> ln v" "ln v \<le> 10 ^ 9"
  shows "np_log (Fin v) = Fin (ln v)"
proof -
  have "to_b64 False (ln v) = Fin (ln v)"
    by (rule to_b64_moderate) (use assms in simp_all)
  then show ?thesis
    using assms(1) by (simp add: np_log_def)
qed

lemma np_log_one: "np_log (Fin 1) = Fin 0"
  by (simp add: np_log_def to_b64_zero signed_zero_def)

lemma np_sqrt_one: "np_sqrt (Fin 1) = Fin 1"
  by (simp add: np_sqrt_def to_b64_moderate)

lemma np_exp_moderate:
  assumes "1 / 10 ^ 9 \<le> exp v" "exp v \<le> 10 ^ 9"
  shows "np_exp (Fin v) = Fin (exp v)"
proof -
  have "to_b64 False (exp v) = Fin (exp v)"
    by (rule to_b64_moderate) (use assms in simp_all)
  then show ?thesis
    by (simp add: np_exp_def)
qed

lemma py_pow2_moderate:
  assumes "1 / 10 ^ 9 \<le> v\<^sup>2" "v\<^sup>2 \<le> 10 ^ 9"
  shows "py_pow2 (Fin v) = Inr (Fin (v\<^sup>2))"
proof -
  have "fmul (Fin v) (Fin v) = Fin (v * v)"
    by (rule fmul_moderate) (use assms in \<open>simp_all add: power2_eq_square\<close>)
  moreover have "\<not> b64_huge \<le> v\<^sup>2"
    using assms(2) b64_huge_large by linarith
  ultimately show ?thesis
    by (simp add: py_pow2_def power2_eq_square)
qed

lemma put_option_price_fl_underflow:
  assumes m: "py_truediv (Fin 100) (Fin K) = Inr m"
    and L: "np_log m = Fin L" "0 \<le> L" "L \<le> 1"
    and K: "1 \<le> K" "K \<le> 1000"
  shows "put_option_price_fl 100 K 1 (5 / 100) (1 / 1000) = Inr (Fin 0)"
proof -
  have S: "py_float 100 = Inr (Fin 100)"
    by (rule py_float_moderate) simp_all
  have aK: "py_arg K = Fin K"
    by (rule py_arg_moderate) (use K in simp_all)
  have asig: "py_arg (1 / 1000) = Fin (1 / 1000)"
    by (rule py_arg_moderate) simp_all
  have ar: "py_arg (5 / 100) = Fin (5 / 100)"
    by (rule py_arg_moderate) simp_all
  have aT: "py_arg 1 = Fin 1"
    by (rule py_arg_moderate) simp_all
  have sq: "py_pow2 (Fin (1 / 1000)) = Inr (Fin (1 / 10 ^ 6))"
    using py_pow2_moderate [of "1 / 1000"] by (simp add: power_divide)
  have h: "fmul (Fin 0.5) (Fin (1 / 10 ^ 6)) = Fin (5 / 10 ^ 7)"
    using fmul_moderate [of "0.5" "1 / 10 ^ 6"] by simp
  have a1: "fadd (Fin (5 / 100)) (Fin (5 / 10 ^ 7)) = Fin (500005 / 10 ^ 7)"
    using fadd_moderate [of "5 / 100" "5 / 10 ^ 7"] by simp
  have a2: "fsub (Fin (5 / 100)) (Fin (5 / 10 ^ 7)) = Fin (499995 / 10 ^ 7)"
    using fsub_moderate [of "5 / 10 ^ 7" "5 / 100"] by simp
  have b1: "fmul (Fin (500005 / 10 ^ 7)) (Fin 1) = Fin (500005 / 10 ^ 7)"
    using fmul_moderate [of "500005 / 10 ^ 7" 1] by simp
  have b2: "fmul (Fin (499995 / 10 ^ 7)) (Fin 1) = Fin (499995 / 10 ^ 7)"
    using fmul_moderate [of "499995 / 10 ^ 7" 1] by simp
  have n1: "fadd (Fin L) (Fin (500005 / 10 ^ 7)) = Fin (L + 500005 / 10 ^ 7)"
    by (rule fadd_moderate) (use L in simp_all)
  have n2: "fadd (Fin L) (Fin (499995 / 10 ^ 7)) = Fin (L + 499995 / 10 ^ 7)"
    by (rule fadd_moderate) (use L in simp_all)
  have vol: "fmul (Fin (1 / 1000)) (np_sqrt (Fin 1)) = Fin (1 / 1000)"
    unfolding np_sqrt_one using fmul_moderate [of "1 / 1000" 1] by simp
  have d1: "fdiv (Fin (L + 500005 / 10 ^ 7)) (Fin (1 / 1000)) = Fin ((L + 500005 / 10 ^ 7) / (1 / 1000))"
    by (rule fdiv_moderate) (use L in simp_all)
  have d2: "fdiv (Fin (L + 499995 / 10 ^ 7)) (Fin (1 / 1000)) = Fin ((L + 499995 / 10 ^ 7) / (1 / 1000))"
    by (rule fdiv_moderate) (use L in simp_all)
  have c1: "norm_cdf_fl (fneg (Fin ((L + 500005 / 10 ^ 7) / (1 / 1000)))) = Fin 0"
    by (rule norm_cdf_fl_underflow) (use L in simp_all)
  have c2: "norm_cdf_fl (fneg (Fin ((L + 499995 / 10 ^ 7) / (1 / 1000)))) = Fin 0"
    by (rule norm_cdf_fl_underflow) (use L in simp_all)
  have nr: "fneg (Fin (5 / 100)) = Fin (- (5 / 100))"
    by simp
  have rT: "fmul (Fin (- (5 / 100))) (Fin 1) = Fin (- (5 / 100))"
    using fmul_moderate [of "- (5 / 100)" 1] by simp
  have e: "95122 / 100000 \<le> exp (- (5 / 100) :: real)" "exp (- (5 / 100) :: real) \<le> 1"
    using exp_minus_twentieth_bounds(1) by simp_all
  have e': "1 / 10 ^ 9 \<le> exp (- (5 / 100) :: real)" "exp (- (5 / 100) :: real) \<le> 10 ^ 9"
  proof -
    show "1 / 10 ^ 9 \<le> exp (- (5 / 100) :: real)"
      by (rule order_trans [OF _ e(1)]) simp
    show "exp (- (5 / 100) :: real) \<le> 10 ^ 9"
      by (rule order_trans [OF e(2)]) simp
  qed
  have disc: "np_exp (Fin (- (5 / 100))) = Fin (exp (- (5 / 100)))"
    by (rule np_exp_moderate [OF e'])
  have "95122 / 100000 * 1 \<le> exp (- (5 / 100)) * K"
    using e K by (intro mult_mono) simp_all
  moreover have "exp (- (5 / 100)) * K \<le> 1 * 1000"
    using e K by (intro mult_mono) simp_all
  ultimately have leg: "fmul (Fin K) (Fin (exp (- (5 / 100)))) = Fin (K * exp (- (5 / 100)))"
    by (intro fmul_moderate) (simp_all add: mult.commute)
  have z1: "fmul (Fin (K * exp (- (5 / 100)))) (Fin 0) = Fin 0"
    by (rule fmul_Fin_zero) (use K in simp)
  have z2: "fmul (Fin 100) (Fin 0) = Fin 0"
    by (rule fmul_Fin_zero) simp
  show ?thesis
    unfolding put_option_price_fl_def S aK asig ar aT
    by (simp only: m sum.case sq Let_def h a1 a2 b1 b2 L(1) n1 n2 vol d1 d2 c1 c2 nr rT disc leg z1 z2
        fsub_zero_zero)
qed

section \<open>Invalid inputs\<close>

lemma is_zero_py_arg: "is_zero (py_arg K) = (\<bar>K\<bar> \<le> b64_tiny)"
  using b64_tiny_less_huge b64_tiny_pos
  by (auto simp: py_arg_def to_b64_def signed_inf_def signed_zero_def)

lemma py_pow2_py_arg:
  assumes "\<bar>sigma\<bar> < b64_huge"
  shows "b64_huge \<le> sigma\<^sup>2 \<Longrightarrow> py_pow2 (py_arg sigma) = Inl OverflowError"
    and "sigma\<^sup>2 < b64_huge \<Longrightarrow> \<exists>sq. py_pow2 (py_arg sigma) = Inr sq"
proof -
  have fin: "is_fin (py_arg sigma)"
    using assms by (simp add: py_arg_def to_b64_def signed_zero_def)
  {
    assume big: "b64_huge \<le> sigma\<^sup>2"
    have "\<not> \<bar>sigma\<bar> \<le> b64_tiny"
    proof
      assume "\<bar>sigma\<bar> \<le> b64_tiny"
      then have "\<bar>sigma\<bar> \<le> 1"
        using b64_tiny_small by simp
      then have "sigma\<^sup>2 \<le> 1"
        by (simp add: abs_square_le_1)
      with big b64_huge_large show False
        by simp
    qed
    then have "py_arg sigma = Fin sigma"
      using assms by (simp add: py_arg_def to_b64_def)
    then show "py_pow2 (py_arg sigma) = Inl OverflowError"
      using big by (simp add: py_pow2_def)
  }
  {
    assume small: "sigma\<^sup>2 < b64_huge"
    have "(fval (py_arg sigma))\<^sup>2 \<le> sigma\<^sup>2"
      using assms by (simp add: py_arg_def to_b64_def signed_zero_def)
    then have "\<not> b64_huge \<le> (fval (py_arg sigma))\<^sup>2"
      using small by linarith
    then show "\<exists>sq. py_pow2 (py_arg sigma) = Inr sq"
      by (simp add: py_pow2_def)
  }
qed

lemma put_option_price_fl_outcome:
  assumes "\<bar>sigma\<bar> < b64_huge"
  shows "b64_huge \<le> \<bar>S\<bar> \<Longrightarrow> put_option_price_fl S K T r sigma = Inl OverflowError"
    and "\<bar>S\<bar> < b64_huge \<Longrightarrow> \<bar>K\<bar> \<le> b64_tiny \<Longrightarrow>
           put_option_price_fl S K T r sigma = Inl ZeroDivisionError"
    and "\<bar>S\<bar> < b64_huge \<Longrightarrow> b64_tiny < \<bar>K\<bar> \<Longrightarrow> b64_huge \<le> sigma\<^sup>2 \<Longrightarrow>
           put_option_price_fl S K T r sigma = Inl OverflowError"
    and "\<bar>S\<bar> < b64_huge \<Longrightarrow> b64_tiny < \<bar>K\<bar> \<Longrightarrow> sigma\<^sup>2 < b64_huge \<Longrightarrow>
           \<exists>v. put_option_price_fl S K T r sigma = Inr v"
proof -
  show "b64_huge \<le> \<bar>S\<bar> \<Longrightarrow> put_option_price_fl S K T r sigma = Inl OverflowError"
    by (simp add: put_option_price_fl_def py_float_def)
  show "\<bar>S\<bar> < b64_huge \<Longrightarrow> \<bar>K\<bar> \<le> b64_tiny \<Longrightarrow>
           put_option_price_fl S K T r sigma = Inl ZeroDivisionError"
    by (simp add: put_option_price_fl_def py_float_def py_truediv_def is_zero_py_arg)
  show "\<bar>S\<bar> < b64_huge \<Longrightarrow> b64_tiny < \<bar>K\<bar> \<Longrightarrow> b64_huge \<le> sigma\<^sup>2 \<Longrightarrow>
           put_option_price_fl S K T r sigma = Inl OverflowError"
    using py_pow2_py_arg(1) [OF assms]
    by (simp add: put_option_price_fl_def py_float_def py_truediv_def is_zero_py_arg)
  show "\<bar>S\<bar> < b64_huge \<Longrightarrow> b64_tiny < \<bar>K\<bar> \<Longrightarrow> sigma\<^sup>2 < b64_huge \<Longrightarrow>
           \<exists>v. put_option_price_fl S K T r sigma = Inr v"
    using py_pow2_py_arg(2) [OF assms]
    by (auto simp: put_option_price_fl_def py_float_def py_truediv_def is_zero_py_arg Let_def)
qed

lemma put_option_price_div_fl_outcome:
  assumes "\<bar>sigma\<bar> < b64_huge"
  shows "b64_huge \<le> \<bar>S\<bar> \<Longrightarrow> put_option_price_div_fl S K T r sigma q = Inl OverflowError"
    and "\<bar>S\<bar> < b64_huge \<Longrightarrow> \<bar>K\<bar> \<le> b64_tiny \<Longrightarrow>
           put_option_price_div_fl S K T r sigma q = Inl ZeroDivisionError"
    and "\<bar>S\<bar> < b64_huge \<Longrightarrow> b64_tiny < \<bar>K\<bar> \<Longrightarrow> b64_huge \<le> sigma\<^sup>2 \<Longrightarrow>
           put_option_price_div_fl S K T r sigma q = Inl OverflowError"
    and "\<bar>S\<bar> < b64_huge \<Longrightarrow> b64_tiny < \<bar>K\<bar> \<Longrightarrow> sigma\<^sup>2 < b64_huge \<Longrightarrow>
           \<exists>v. put_option_price_div_fl S K T r sigma q = Inr v"
proof -
  show "b64_huge \<le> \<bar>S\<bar> \<Longrightarrow> put_option_price_div_fl S K T r sigma q = Inl OverflowError"
    by (simp add: put_option_price_div_fl_def py_float_def)
  show "\<bar>S\<bar> < b64_huge \<Longrightarrow> \<bar>K\<bar> \<le> b64_tiny \<Longrightarrow>
           put_option_price_div_fl S K T r sigma q = Inl ZeroDivisionError"
    by (simp add: put_option_price_div_fl_def py_float_def py_truediv_def is_zero_py_arg)
  show "\<bar>S\<bar> < b64_huge \<Longrightarrow> b64_tiny < \<bar>K\<bar> \<Longrightarrow> b64_huge \<le> sigma\<^sup>2 \<Longrightarrow>
           put_option_price_div_fl S K T r sigma q = Inl OverflowError"
    using py_pow2_py_arg(1) [OF assms]
    by (simp add: put_option_price_div_fl_def py_float_def py_truediv_def is_zero_py_arg)
  show "\<bar>S\<bar> < b64_huge \<Longrightarrow> b64_tiny < \<bar>K\<bar> \<Longrightarrow> sigma\<^sup>2 < b64_huge \<Longrightarrow>
           \<exists>v. put_option_price_div_fl S K T r sigma q = Inr v"
    using py_pow2_py_arg(2) [OF assms]
    by (auto simp: put_option_price_div_fl_def py_float_def py_truediv_def is_zero_py_arg Let_def)
qed

lemma outcome_characterisation:
  fixes R :: "py_error + npfloat"
  assumes 1: "b64_huge \<le> \<bar>S\<bar> \<Longrightarrow> R = Inl OverflowError"
    and 2: "\<bar>S\<bar> < b64_huge \<Longrightarrow> \<bar>K\<bar> \<le> b64_tiny \<Longrightarrow> R = Inl ZeroDivisionError"
    and 3: "\<bar>S\<bar> < b64_huge \<Longrightarrow> b64_tiny < \<bar>K\<bar> \<Longrightarrow> b64_huge \<le> sigma\<^sup>2 \<Longrightarrow> R = Inl OverflowError"
    and 4: "\<bar>S\<bar> < b64_huge \<Longrightarrow> b64_tiny < \<bar>K\<bar> \<Longrightarrow> sigma\<^sup>2 < b64_huge \<Longrightarrow> \<exists>v. R = Inr v"
  shows "R \<noteq> Inl InvalidInput \<and> R \<noteq> Inl DomainError \<and>
     ((R = Inl OverflowError) = (b64_huge \<le> \<bar>S\<bar> \<or> (b64_tiny < \<bar>K\<bar> \<and> b64_huge \<le> sigma\<^sup>2))) \<and>
     ((R = Inl ZeroDivisionError) = (\<bar>S\<bar> < b64_huge \<and> \<bar>K\<bar> \<le> b64_tiny)) \<and>
     ((\<exists>v. R = Inr v) = (\<bar>S\<bar> < b64_huge \<and> b64_tiny < \<bar>K\<bar> \<and> sigma\<^sup>2 < b64_huge))"
proof -
  consider "b64_huge \<le> \<bar>S\<bar>"
    | "\<bar>S\<bar> < b64_huge" "\<bar>K\<bar> \<le> b64_tiny"
    | "\<bar>S\<bar> < b64_huge" "b64_tiny < \<bar>K\<bar>" "b64_huge \<le> sigma\<^sup>2"
    | "\<bar>S\<bar> < b64_huge" "b64_tiny < \<bar>K\<bar>" "sigma\<^sup>2 < b64_huge"
    by linarith
  then show ?thesis
  proof cases
    case 1
    with assms(1) show ?thesis by auto
  next
    case 2
    with assms(2) show ?thesis by auto
  next
    case 3
    with assms(3) show ?thesis by auto
  next
    case 4
    with assms(4) show ?thesis by auto
  qed
qed

text \<open>
  Claim C2 says that for \<open>S \<le> 0\<close>, \<open>K \<le> 0\<close>, \<open>T < 0\<close> or \<open>sigma \<le> 0\<close> the pricing functions
  fail with a structured \<open>InvalidInput\<close>, and for \<open>T = 0\<close> with a \<open>DomainError\<close>, before the
  formula is evaluated. The code has no check: at \<open>S = - 5\<close>, \<open>K = 100\<close>, \<open>T = 1\<close>, \<open>r = 0.05\<close>,
  \<open>sigma = 0.2\<close> it evaluates the formula and returns NaN.
\<close>

theorem put_option_price_negative_spot_nan:
  "put_option_price_fl (- 5) 100 1 (5 / 100) (2 / 10) = Inr NaN"
proof -
  have S: "py_float (- 5) = Inr (Fin (- 5))"
    by (rule py_float_moderate) simp_all
  have K: "py_arg 100 = Fin 100"
    by (rule py_arg_moderate) simp_all
  have m: "py_truediv (Fin (- 5)) (Fin 100) = Inr (Fin (- 5 / 100))"
    using fdiv_moderate [of 100 "- 5"] by (simp add: py_truediv_def)
  have l: "np_log (Fin (- 5 / 100)) = NaN"
    by (simp add: np_log_def)
  have "\<exists>sq. py_pow2 (py_arg (2 / 10)) = Inr sq"
    using b64_huge_large by (intro py_pow2_py_arg(2)) (simp_all add: power2_eq_square)
  then obtain sq where sq: "py_pow2 (py_arg (2 / 10)) = Inr sq" ..
  show ?thesis
    unfolding put_option_price_fl_def S K
    by (simp only: m sq l sum.case Let_def NaN_absorbing)
qed

text \<open>
  Claim C2 as amended: for float arguments \<open>K\<close>, \<open>T\<close>, \<open>r\<close>, \<open>sigma\<close>, \<open>q\<close> and any number
  \<open>S\<close>, the pricing functions validate nothing and never fail with \<open>InvalidInput\<close> or
  \<open>DomainError\<close>. Their only failures are Python's native exceptions: \<^verbatim>\<open>OverflowError\<close>, exactly
  when \<open>S\<close> is beyond the float range or, for \<open>K\<close> not zero, \<^verbatim>\<open>sigma ** 2\<close> overflows; and
  \<^verbatim>\<open>ZeroDivisionError\<close>, exactly when \<open>S\<close> is in the float range and \<open>K\<close> is zero. In every other
  case the formula is evaluated and a float is returned, which may be NaN or an infinity.
\<close>

theorem pricing_functions_do_not_validate:
  assumes "\<bar>K\<bar> < b64_huge" "\<bar>T\<bar> < b64_huge" "\<bar>r\<bar> < b64_huge" "\<bar>sigma\<bar> < b64_huge" "\<bar>q\<bar> < b64_huge"
  shows "(put_option_price_fl S K T r sigma \<noteq> Inl InvalidInput \<and>
          put_option_price_fl S K T r sigma \<noteq> Inl DomainError \<and>
          ((put_option_price_fl S K T r sigma = Inl OverflowError) =
             (b64_huge \<le> \<bar>S\<bar> \<or> (b64_tiny < \<bar>K\<bar> \<and> b64_huge \<le> sigma\<^sup>2))) \<and>
          ((put_option_price_fl S K T r sigma = Inl ZeroDivisionError) =
             (\<bar>S\<bar> < b64_huge \<and> \<bar>K\<bar> \<le> b64_tiny)) \<and>
          ((\<exists>v. put_option_price_fl S K T r sigma = Inr v) =
             (\<bar>S\<bar> < b64_huge \<and> b64_tiny < \<bar>K\<bar> \<and> sigma\<^sup>2 < b64_huge))) \<and>
         (put_option_price_div_fl S K T r sigma q \<noteq> Inl InvalidInput \<and>
          put_option_price_div_fl S K T r sigma q \<noteq> Inl DomainError \<and>
          ((put_option_price_div_fl S K T r sigma q = Inl OverflowError) =
             (b64_huge \<le> \<bar>S\<bar> \<or> (b64_tiny < \<bar>K\<bar> \<and> b64_huge \<le> sigma\<^sup>2))) \<and>
          ((put_option_price_div_fl S K T r sigma q = Inl ZeroDivisionError) =
             (\<bar>S\<bar> < b64_huge \<and> \<bar>K\<bar> \<le> b64_tiny)) \<and>
          ((\<exists>v. put_option_price_div_fl S K T r sigma q = Inr v) =
             (\<bar>S\<bar> < b64_huge \<and> b64_tiny < \<bar>K\<bar> \<and> sigma\<^sup>2 < b64_huge)))"
proof
  show "put_option_price_fl S K T r sigma \<noteq> Inl InvalidInput \<and>
          put_option_price_fl S K T r sigma \<noteq> Inl DomainError \<and>
          ((put_option_price_fl S K T r sigma = Inl OverflowError) =
             (b64_huge \<le> \<bar>S\<bar> \<or> (b64_tiny < \<bar>K\<bar> \<and> b64_huge \<le> sigma\<^sup>2))) \<and>
          ((put_option_price_fl S K T r sigma = Inl ZeroDivisionError) =
             (\<bar>S\<bar> < b64_huge \<and> \<bar>K\<bar> \<le> b64_tiny)) \<and>
          ((\<exists>v. put_option_price_fl S K T r sigma = Inr v) =
             (\<bar>S\<bar> < b64_huge \<and> b64_tiny < \<bar>K\<bar> \<and> sigma\<^sup>2 < b64_huge))"
    by (rule outcome_characterisation) (rule put_option_price_fl_outcome [OF assms(4)]; assumption)+
  show "put_option_price_div_fl S K T r sigma q \<noteq> Inl InvalidInput \<and>
          put_option_price_div_fl S K T r sigma q \<noteq> Inl DomainError \<and>
          ((put_option_price_div_fl S K T r sigma q = Inl OverflowError) =
             (b64_huge \<le> \<bar>S\<bar> \<or> (b64_tiny < \<bar>K\<bar> \<and> b64_huge \<le> sigma\<^sup>2))) \<and>
          ((put_option_price_div_fl S K T r sigma q = Inl ZeroDivisionError) =
             (\<bar>S\<bar> < b64_huge \<and> \<bar>K\<bar> \<le> b64_tiny)) \<and>
          ((\<exists>v. put_option_price_div_fl S K T r sigma q = Inr v) =
             (\<bar>S\<bar> < b64_huge \<and> b64_tiny < \<bar>K\<bar> \<and> sigma\<^sup>2 < b64_huge))"
    by (rule outcome_characterisation) (rule put_option_price_div_fl_outcome [OF assms(4)]; assumption)+
qed

theorem pricing_functions_do_not_validate_witness:
  "put_option_price_fl 100 0 1 (5 / 100) (2 / 10) = Inl ZeroDivisionError \<and>
   put_option_price_fl (- 5) 100 1 (5 / 100) (10 ^ 155) = Inl OverflowError \<and>
   (\<exists>v. put_option_price_div_fl 100 100 0 (5 / 100) (2 / 10) (2 / 100) = Inr v)"
proof (intro conjI)
  have h: "\<bar>x\<bar> < b64_huge" if "\<bar>x\<bar> \<le> 10 ^ 9" for x
    using that b64_huge_large by linarith
  have f: "\<bar>0 :: real\<bar> < b64_huge" "\<bar>1 :: real\<bar> < b64_huge" "\<bar>5 / 100 :: real\<bar> < b64_huge"
    "\<bar>2 / 10 :: real\<bar> < b64_huge" "\<bar>2 / 100 :: real\<bar> < b64_huge" "\<bar>100 :: real\<bar> < b64_huge"
    by (rule h, simp)+
  have big: "\<bar>10 ^ 155 :: real\<bar> < b64_huge" "b64_huge \<le> (10 ^ 155 :: real)\<^sup>2"
    by (simp_all add: b64_huge_def)
  have t: "\<bar>0 :: real\<bar> \<le> b64_tiny" "b64_tiny < \<bar>100 :: real\<bar>"
    using b64_tiny_pos b64_tiny_small by simp_all
  have s: "(2 / 10 :: real)\<^sup>2 < b64_huge"
    using b64_huge_large by (simp add: power2_eq_square)
  note a = pricing_functions_do_not_validate [where S = 100 and K = 0 and T = 1 and r = "5 / 100"
        and sigma = "2 / 10" and q = 0, OF f(1) f(2) f(3) f(4) f(1)]
  show "put_option_price_fl 100 0 1 (5 / 100) (2 / 10) = Inl ZeroDivisionError"
    by (rule a [THEN conjunct1, THEN conjunct2, THEN conjunct2, THEN conjunct2, THEN conjunct1,
          THEN iffD2]) (intro conjI f(6) t(1))
  note b = pricing_functions_do_not_validate [where S = "- 5" and K = 100 and T = 1 and r = "5 / 100"
        and sigma = "10 ^ 155" and q = 0, OF f(6) f(2) f(3) big(1) f(1)]
  show "put_option_price_fl (- 5) 100 1 (5 / 100) (10 ^ 155) = Inl OverflowError"
    by (rule b [THEN conjunct1, THEN conjunct2, THEN conjunct2, THEN conjunct1, THEN iffD2])
      (intro disjI2 conjI t(2) big(2))
  note c = pricing_functions_do_not_validate [where S = 100 and K = 100 and T = 0 and r = "5 / 100"
        and sigma = "2 / 10" and q = "2 / 100", OF f(6) f(1) f(3) f(4) f(5)]
  show "\<exists>v. put_option_price_div_fl 100 100 0 (5 / 100) (2 / 10) (2 / 100) = Inr v"
    by (rule c [THEN conjunct2, THEN conjunct2, THEN conjunct2, THEN conjunct2, THEN conjunct2,
          THEN iffD2]) (intro conjI f(6) t(2) s)
qed

section \<open>Monotonicity in the strike and underflow\<close>

text \<open>
  Claim C7 says that the put price returned by \<^verbatim>\<open>put_option_price\<close> is strictly increasing in
  the strike. In binary64 the distribution function underflows: at \<open>S = 100\<close>, \<open>T = 1\<close>,
  \<open>r = 0.05\<close>, \<open>sigma = 0.001\<close> the code returns \<open>0.0\<close> both for \<open>K = 99\<close> and for \<open>K = 100\<close>.
\<close>

theorem put_option_price_underflow_equal:
  "put_option_price_fl 100 99 1 (5 / 100) (1 / 1000) = Inr (Fin 0) \<and>
   put_option_price_fl 100 100 1 (5 / 100) (1 / 1000) = Inr (Fin 0)"
proof
  have l: "1 / 100 \<le> ln (100 / 99 :: real)" "ln (100 / 99 :: real) \<le> 1 / 99"
  proof -
    have "ln (99 / 100 :: real) \<le> 99 / 100 - 1"
      by (rule ln_le_minus_one) simp
    moreover have "ln (99 / 100 :: real) = - ln (100 / 99)"
      using ln_inverse [of "100 / 99 :: real"] by simp
    ultimately show "1 / 100 \<le> ln (100 / 99 :: real)"
      by simp
    have "ln (100 / 99 :: real) \<le> 100 / 99 - 1"
      by (rule ln_le_minus_one) simp
    then show "ln (100 / 99 :: real) \<le> 1 / 99"
      by simp
  qed
  have q: "fdiv (Fin 100) (Fin 99) = Fin (100 / 99)"
    by (rule fdiv_moderate) simp_all
  show "put_option_price_fl 100 99 1 (5 / 100) (1 / 1000) = Inr (Fin 0)"
  proof (rule put_option_price_fl_underflow)
    show "py_truediv (Fin 100) (Fin 99) = Inr (Fin (100 / 99))"
      by (simp add: py_truediv_def q)
    show "np_log (Fin (100 / 99)) = Fin (ln (100 / 99))"
      by (rule np_log_moderate) (use l in simp_all)
    show "0 \<le> ln (100 / 99 :: real)" "ln (100 / 99 :: real) \<le> 1"
      using l by simp_all
  qed simp_all
  have q': "fdiv (Fin 100) (Fin 100) = Fin 1"
    using fdiv_moderate [of 100 100] by simp
  show "put_option_price_fl 100 100 1 (5 / 100) (1 / 1000) = Inr (Fin 0)"
  proof (rule put_option_price_fl_underflow)
    show "py_truediv (Fin 100) (Fin 100) = Inr (Fin 1)"
      by (simp add: py_truediv_def q')
    show "np_log (Fin 1) = Fin 0"
      by (rule np_log_one)
  qed simp_all
qed

text \<open>
  Claim C7 as amended: in exact real arithmetic, for fixed \<open>S > 0\<close>, \<open>T > 0\<close>, \<open>sigma > 0\<close> and
  real \<open>r\<close>, the value of the formula that \<^verbatim>\<open>put_option_price\<close> evaluates is strictly increasing
  in the strike: \<open>0 < K1 < K2\<close> implies
  \<open>put_option_price S K1 T r sigma < put_option_price S K2 T r sigma\<close>. The binary64 values
  that the code returns need not differ, as the theorem above shows.
\<close>

theorem put_option_price_strict_mono_strike:
  assumes "0 < S" "0 < T" "0 < sigma" "0 < K1" "K1 < K2"
  shows "put_option_price S K1 T r sigma < put_option_price S K2 T r sigma"
  using assms by (rule put_option_price_strike_increasing)

theorem put_option_price_strict_mono_strike_witness:
  "(0::real) < 100 \<and> (0::real) < 1 \<and> (0::real) < 2 / 10 \<and> (0::real) < 90 \<and> (90::real) < 100 \<and>
   put_option_price 100 90 1 (5 / 100) (2 / 10) < put_option_price 100 100 1 (5 / 100) (2 / 10)"
  using put_option_price_strict_mono_strike [of 100 1 "2 / 10" 90 100 "5 / 100"] by simp

section \<open>Sign of the price\<close>

text \<open>
  The non-dividend price is positive on the valid domain: it increases in the strike and
  tends to \<open>0\<close> as the strike tends to \<open>0\<close>. The value of \<^const>\<open>put_option_price_div\<close> is
  positive for a dividend yield \<open>q \<ge> 0\<close>; for \<open>q < 0\<close> it can be negative, as shown above.
  These are statements about the real-valued functions, in exact arithmetic.
\<close>

lemma bs_d1_strike_at_right_0:
  assumes "0 < S" "0 < T" "0 < sigma"
  shows "LIM K at_right 0. bs_d1 S K T r sigma :> at_top"
proof -
  let ?c = "ln S + (r + 0.5 * sigma ^ 2) * T"
  have a: "0 < 1 / (sigma * sqrt T)"
    using assms by simp
  have "LIM K at_right (0::real). - ln K :> at_top"
    by (rule filterlim_uminus_at_bot [THEN iffD1, OF ln_at_0])
  then have "LIM K at_right 0. ?c + - ln K :> at_top"
    by (rule filterlim_tendsto_add_at_top [OF tendsto_const])
  then have "LIM K at_right 0. 1 / (sigma * sqrt T) * (?c + - ln K) :> at_top"
    by (rule filterlim_tendsto_pos_mult_at_top [OF tendsto_const a])
  moreover have "\<forall>\<^sub>F K in at_right 0. 1 / (sigma * sqrt T) * (?c + - ln K) = bs_d1 S K T r sigma"
    using eventually_at_right_less [of "0::real"]
  proof eventually_elim
    case (elim K)
    then have "ln (S / K) = ln S - ln K"
      using assms by (simp add: ln_div)
    then have "ln (S / K) + (r + 0.5 * sigma ^ 2) * T = ?c + - ln K"
      by simp
    then show ?case
      unfolding bs_d1_def by (simp only: divide_inverse mult.commute mult_1)
  qed
  ultimately show ?thesis
    by (rule filterlim_cong [THEN iffD1, OF refl refl, rotated])
qed

lemma put_option_price_strike_at_right_0:
  assumes "0 < S" "0 < T" "0 < sigma"
  shows "((\<lambda>K. put_option_price S K T r sigma) \<longlongrightarrow> 0) (at_right 0)"
proof -
  have 1: "((\<lambda>K. K * exp (- r * T) * ndtr (- bs_d2 S K T r sigma)) \<longlongrightarrow> 0) (at_right 0)"
  proof (rule tendsto_sandwich)
    show "\<forall>\<^sub>F K in at_right 0. 0 \<le> K * exp (- r * T) * ndtr (- bs_d2 S K T r sigma)"
      using eventually_at_right_less [of "0::real"]
    proof eventually_elim
      case (elim K)
      then show ?case
        using ndtr_pos [of "- bs_d2 S K T r sigma"] by simp
    qed
    show "\<forall>\<^sub>F K in at_right 0. K * exp (- r * T) * ndtr (- bs_d2 S K T r sigma) \<le> K * exp (- r * T)"
      using eventually_at_right_less [of "0::real"]
    proof eventually_elim
      case (elim K)
      have "K * exp (- r * T) * ndtr (- bs_d2 S K T r sigma) \<le> K * exp (- r * T) * 1"
        using elim ndtr_less_1 [of "- bs_d2 S K T r sigma"]
        by (intro mult_left_mono) simp_all
      then show ?case by simp
    qed
    show "((\<lambda>K::real. 0) \<longlongrightarrow> 0) (at_right 0)"
      by simp
    have "((\<lambda>K. K * exp (- r * T)) \<longlongrightarrow> 0 * exp (- r * T)) (at_right 0)"
      by (intro tendsto_intros tendsto_ident_at)
    then show "((\<lambda>K. K * exp (- r * T)) \<longlongrightarrow> 0) (at_right 0)"
      by simp
  qed
  have 2: "((\<lambda>K. S * ndtr (- bs_d1 S K T r sigma)) \<longlongrightarrow> S * 0) (at_right 0)"
    by (intro tendsto_mult tendsto_const ndtr_neg_at_top bs_d1_strike_at_right_0 [OF assms])
  show ?thesis
    unfolding put_option_price_alt discounted_put_def
    using tendsto_diff [OF 1 2] by simp
qed

lemma put_option_price_pos:
  assumes "0 < S" "0 < K" "0 < T" "0 < sigma"
  shows "0 < put_option_price S K T r sigma"
proof -
  have "\<forall>\<^sub>F K' in at_right 0. put_option_price S K' T r sigma \<le> put_option_price S (K / 2) T r sigma"
    unfolding eventually_at_right_field
  proof (intro exI conjI allI impI)
    show "0 < K / 2" using assms by simp
    fix y :: real
    assume "0 < y" "y < K / 2"
    then show "put_option_price S y T r sigma \<le> put_option_price S (K / 2) T r sigma"
      using put_option_price_strike_increasing [OF assms(1,3,4), of y "K / 2" r] by simp
  qed
  then have "0 \<le> put_option_price S (K / 2) T r sigma"
    by (rule tendsto_upperbound [OF put_option_price_strike_at_right_0 [OF assms(1,3,4)]]) simp
  also have "\<dots> < put_option_price S K T r sigma"
    by (rule put_option_price_strike_increasing [OF assms(1,3,4)]) (use assms in simp_all)
  finally show ?thesis .
qed

lemma put_option_price_div_pos:
  assumes "0 < S" "0 < K" "0 < T" "0 < sigma" "0 \<le> q"
  shows "0 < put_option_price_div S K T r sigma q"
proof -
  have "exp (- q * T) \<le> 1"
    using assms by simp
  then have "S * exp (- q * T) * ndtr (- bs_d1 S K T r sigma) \<le> S * 1 * ndtr (- bs_d1 S K T r sigma)"
    using assms ndtr_pos [of "- bs_d1 S K T r sigma"]
    by (intro mult_right_mono mult_left_mono) simp_all
  then have "put_option_price S K T r sigma \<le> put_option_price_div S K T r sigma q"
    unfolding put_option_price_alt put_option_price_div_alt discounted_put_def by simp
  with put_option_price_pos [OF assms(1-4), of r] show ?thesis
    by linarith
qed

end
